theory Spec2Isabelle
  imports Complex_Main "HOL-Library.Product_Lexorder"
begin

section \<open>Python strings\<close>

text \<open>
  A Python \<open>str\<close> is a sequence of code points. It is modelled as a \<open>string\<close>, where a
  \<open>char\<close> stands for the code point of the same number, so the model covers texts whose
  code points lie below 256. The character tables below are those of CPython's Unicode
  database restricted to that range.
\<close>

definition code :: "char \<Rightarrow> nat" where
  "code c = of_char c"

definition between :: "nat \<Rightarrow> nat \<Rightarrow> char \<Rightarrow> bool" where
  "between lo hi c = (lo \<le> code c \<and> code c \<le> hi)"

text \<open>\<open>str.isspace\<close> of one character, which is also the class \<open>\s\<close> of \<open>re\<close>.\<close>

definition is_space :: "char \<Rightarrow> bool" where
  "is_space c = (between 0x09 0x0D c \<or> between 0x1C 0x20 c \<or> code c = 0x85 \<or> code c = 0xA0)"

text \<open>The class \<open>\d\<close>: the decimal digits.\<close>

definition is_digit :: "char \<Rightarrow> bool" where
  "is_digit c = between 0x30 0x39 c"

definition is_upper :: "char \<Rightarrow> bool" where
  "is_upper c = (between 0x41 0x5A c \<or> between 0xC0 0xD6 c \<or> between 0xD8 0xDE c)"

definition is_lower :: "char \<Rightarrow> bool" where
  "is_lower c = (between 0x61 0x7A c \<or> code c = 0xAA \<or> code c = 0xB5 \<or> code c = 0xBA
     \<or> between 0xDF 0xF6 c \<or> between 0xF8 0xFF c)"

text \<open>The class \<open>\w\<close>: alphanumeric characters and the underscore.\<close>

definition is_word :: "char \<Rightarrow> bool" where
  "is_word c = (is_digit c \<or> is_upper c \<or> is_lower c \<or> code c = 0x5F
     \<or> code c = 0xB2 \<or> code c = 0xB3 \<or> code c = 0xB9 \<or> between 0xBC 0xBE c)"

text \<open>
  The lower-case letter of an upper-case one is 32 code points above it: bit 5, clear in
  every upper-case letter of the range, is set.
\<close>

definition lower_char :: "char \<Rightarrow> char" where
  "lower_char c =
     (if is_upper c
      then (case c of Char b0 b1 b2 b3 b4 b5 b6 b7 \<Rightarrow> Char b0 b1 b2 b3 b4 True b6 b7)
      else c)"

text \<open>\<open>str.lower\<close>, \<open>str.strip\<close>, \<open>str.isupper\<close>, \<open>str.split\<close> without arguments.\<close>

definition lower :: "string \<Rightarrow> string" where
  "lower s = map lower_char s"

definition strip :: "string \<Rightarrow> string" where
  "strip s = rev (dropWhile is_space (rev (dropWhile is_space s)))"

definition isupper :: "string \<Rightarrow> bool" where
  "isupper s = (list_ex is_upper s \<and> \<not> list_ex is_lower s)"

function split_ws :: "string \<Rightarrow> string list" where
  "split_ws s =
     (case dropWhile is_space s of
        [] \<Rightarrow> []
      | c # cs \<Rightarrow> takeWhile (\<lambda>x. \<not> is_space x) (c # cs)
                 # split_ws (dropWhile (\<lambda>x. \<not> is_space x) cs))"
  by pat_completeness auto
termination
proof (relation "measure length")
  fix s :: string and c cs
  assume "dropWhile is_space s = c # cs"
  then have "length (c # cs) \<le> length s"
    by (metis length_dropWhile_le)
  moreover have "length (dropWhile (\<lambda>x. \<not> is_space x) cs) \<le> length cs"
    by (rule length_dropWhile_le)
  ultimately show "(dropWhile (\<lambda>x. \<not> is_space x) cs, s) \<in> measure length"
    by simp
qed simp

text \<open>\<open>sub in s\<close>, \<open>s.startswith(p)\<close>, \<open>s.endswith(p)\<close>, \<open>s.count(c)\<close> for one character.\<close>

fun contains :: "string \<Rightarrow> string \<Rightarrow> bool" where
  "contains sub [] = (sub = [])"
| "contains sub (c # cs) = (take (length sub) (c # cs) = sub \<or> contains sub cs)"

definition startswith :: "string \<Rightarrow> string \<Rightarrow> bool" where
  "startswith s p = (take (length p) s = p)"

definition endswith :: "string \<Rightarrow> string \<Rightarrow> bool" where
  "endswith s p = (length p \<le> length s \<and> drop (length s - length p) s = p)"

definition count_char :: "string \<Rightarrow> char \<Rightarrow> nat" where
  "count_char s c = length (filter (\<lambda>x. x = c) s)"

section \<open>Regular expressions\<close>

text \<open>
  The patterns of the source, as terms. A match state is the number of characters before
  the current position, the rest of the subject, and the groups captured so far (the most
  recent capture of a group first). \<open>run r st\<close> lists the states in which a match of \<open>r\<close>
  from \<open>st\<close> can end, in the order in which the backtracking matcher of \<open>re\<close> tries them:
  its head is the match \<open>re\<close> returns. Repetition is greedy. An iteration of a repeated
  pattern has to consume a character; every repeated pattern of the source does.
\<close>

datatype regex =
    Lit char
  | Cls "char \<Rightarrow> bool"
  | Dot
  | Bol
  | Eol
  | Eps
  | Seq regex regex
  | Alt regex regex
  | Star regex
  | Grp nat regex

type_synonym mstate = "nat \<times> string \<times> (nat \<times> string) list"

definition advanced :: "mstate \<Rightarrow> mstate \<Rightarrow> bool" where
  "advanced st st' = (length (fst (snd st')) < length (fst (snd st)))"

definition capture :: "nat \<Rightarrow> mstate \<Rightarrow> mstate \<Rightarrow> mstate" where
  "capture n st st' =
     (fst st', fst (snd st'), (n, take (fst st' - fst st) (fst (snd st))) # snd (snd st'))"

function run :: "regex \<Rightarrow> mstate \<Rightarrow> mstate list" where
  "run (Lit c) st =
     (case fst (snd st) of [] \<Rightarrow> []
      | x # xs \<Rightarrow> if x = c then [(Suc (fst st), xs, snd (snd st))] else [])"
| "run (Cls P) st =
     (case fst (snd st) of [] \<Rightarrow> []
      | x # xs \<Rightarrow> if P x then [(Suc (fst st), xs, snd (snd st))] else [])"
| "run Dot st =
     (case fst (snd st) of [] \<Rightarrow> []
      | x # xs \<Rightarrow> if x \<noteq> CHR 0x0A then [(Suc (fst st), xs, snd (snd st))] else [])"
| "run Bol st = (if fst st = 0 then [st] else [])"
| "run Eol st = (if fst (snd st) = [] \<or> fst (snd st) = [CHR 0x0A] then [st] else [])"
| "run Eps st = [st]"
| "run (Seq a b) st = concat (map (run b) (run a st))"
| "run (Alt a b) st = run a st @ run b st"
| "run (Star a) st = concat (map (run (Star a)) (filter (advanced st) (run a st))) @ [st]"
| "run (Grp n a) st = map (capture n st) (run a st)"
  by pat_completeness auto
termination
  by (relation "measures [\<lambda>(r, st). size r, \<lambda>(r, st). length (fst (snd st))]")
     (auto simp: advanced_def)

text \<open>The derived forms \<open>r+\<close>, \<open>r?\<close>, \<open>r{lo,hi}\<close>, a literal word, and an alternation.\<close>

definition Plus :: "regex \<Rightarrow> regex" where
  "Plus r = Seq r (Star r)"

definition Opt :: "regex \<Rightarrow> regex" where
  "Opt r = Alt r Eps"

fun Rep :: "nat \<Rightarrow> nat \<Rightarrow> regex \<Rightarrow> regex" where
  "Rep 0 0 r = Eps"
| "Rep 0 (Suc hi) r = Opt (Seq r (Rep 0 hi r))"
| "Rep (Suc lo) hi r = Seq r (Rep lo (hi - 1) r)"

fun Str :: "string \<Rightarrow> regex" where
  "Str [] = Eps"
| "Str (c # cs) = Seq (Lit c) (Str cs)"

fun Seqs :: "regex list \<Rightarrow> regex" where
  "Seqs [] = Eps"
| "Seqs [r] = r"
| "Seqs (r # rs) = Seq r (Seqs rs)"

fun Alts :: "regex list \<Rightarrow> regex" where
  "Alts [] = Cls (\<lambda>c. False)"
| "Alts [r] = r"
| "Alts (r # rs) = Alt r (Alts rs)"

text \<open>
  \<open>re.match\<close> tries the pattern at the start of the subject only; \<open>re.search\<close> tries every
  position from the left. Both give the captured groups of the first match, or \<open>None\<close>.
  \<open>group m n\<close> is \<open>m.group(n)\<close>, \<open>None\<close> for a group that took no part in the match.
\<close>

type_synonym match = "(nat \<times> string) list"

definition re_match :: "regex \<Rightarrow> string \<Rightarrow> match option" where
  "re_match r s = (case run r (0, s, []) of [] \<Rightarrow> None | st # _ \<Rightarrow> Some (snd (snd st)))"

fun search_from :: "regex \<Rightarrow> nat \<Rightarrow> string \<Rightarrow> match option" where
  "search_from r p [] = (case run r (p, [], []) of [] \<Rightarrow> None | st # _ \<Rightarrow> Some (snd (snd st)))"
| "search_from r p (c # cs) =
     (case run r (p, c # cs, []) of [] \<Rightarrow> search_from r (Suc p) cs
      | st # _ \<Rightarrow> Some (snd (snd st)))"

definition re_search :: "regex \<Rightarrow> string \<Rightarrow> match option" where
  "re_search r s = search_from r 0 s"

definition group :: "match \<Rightarrow> nat \<Rightarrow> string option" where
  "group m n = map_of m n"

text \<open>\<open>re.sub(r'\s+', ' ', s)\<close>: every run of whitespace becomes one space.\<close>

function sub_ws :: "string \<Rightarrow> string" where
  "sub_ws [] = []"
| "sub_ws (c # cs) =
     (if is_space c then CHR '' '' # sub_ws (dropWhile is_space cs) else c # sub_ws cs)"
  by pat_completeness auto
termination
  by (relation "measure length") (auto simp: length_dropWhile_le less_Suc_eq_le)

section \<open>The patterns of the source\<close>

definition digit :: regex where
  "digit = Cls is_digit"

definition space :: regex where
  "space = Cls is_space"

definition word :: regex where
  "word = Cls is_word"

text \<open>The class \<open>[A-Z]\<close>.\<close>

definition is_AZ :: "char \<Rightarrow> bool" where
  "is_AZ c = between 0x41 0x5A c"

text \<open>
  \<open>copyright|\<copyright>|all rights reserved|confidential|proprietary\<close>, the sign being the
  code point 0xA9.
\<close>

definition legal_re :: regex where
  "legal_re = Alts [Str ''copyright'', Lit (CHR 0xA9), Str ''all rights reserved'',
     Str ''confidential'', Str ''proprietary'']"

text \<open>\<open>http[s]?://|www\.|@[\w\.-]+\.\w+|\.com|\.org|\.net\<close>\<close>

definition url_re :: regex where
  "url_re = Alts
     [Seqs [Str ''http'', Opt (Cls (\<lambda>c. c = CHR ''s'')), Str ''://''],
      Str ''www.'',
      Seqs [Lit CHR ''@'', Plus (Cls (\<lambda>c. is_word c \<or> c = CHR ''.'' \<or> c = CHR ''-'')),
            Lit CHR ''.'', Plus word],
      Str ''.com'', Str ''.org'', Str ''.net'']"

text \<open>\<open>^\d{1,2}[\/\-]\d{1,2}[\/\-]\d{2,4}$\<close>\<close>

definition date_re :: regex where
  "date_re = Seqs
     [Bol, Rep 1 2 digit, Cls (\<lambda>c. c = CHR ''/'' \<or> c = CHR ''-''), Rep 1 2 digit,
      Cls (\<lambda>c. c = CHR ''/'' \<or> c = CHR ''-''), Rep 2 4 digit, Eol]"

text \<open>\<open>^(\d+)(\.\d+)*\.?\s+(.+)$\<close>\<close>

definition numbered_re :: regex where
  "numbered_re = Seqs
     [Bol, Grp 1 (Plus digit), Star (Grp 2 (Seq (Lit CHR ''.'') (Plus digit))),
      Opt (Lit CHR ''.''), Plus space, Grp 3 (Plus Dot), Eol]"

text \<open>\<open>^\d+$\<close>\<close>

definition digits_re :: regex where
  "digits_re = Seqs [Bol, Plus digit, Eol]"

text \<open>\<open>^([A-Z])(\.\d+)*\.?\s+(.+)$\<close>\<close>

definition letter_re :: regex where
  "letter_re = Seqs
     [Bol, Grp 1 (Cls is_AZ), Star (Grp 2 (Seq (Lit CHR ''.'') (Plus digit))),
      Opt (Lit CHR ''.''), Plus space, Grp 3 (Plus Dot), Eol]"

text \<open>\<open>^([IVX]+)\.?\s+(.+)$\<close>\<close>

definition roman_re :: regex where
  "roman_re = Seqs
     [Bol, Grp 1 (Plus (Cls (\<lambda>c. c = CHR ''I'' \<or> c = CHR ''V'' \<or> c = CHR ''X''))),
      Opt (Lit CHR ''.''), Plus space, Grp 2 (Plus Dot), Eol]"

text \<open>\<open>\d+:\d+\<close>\<close>

definition ratio_re :: regex where
  "ratio_re = Seqs [Plus digit, Lit CHR '':'', Plus digit]"

text \<open>\<open>^[A-Z\s]+\d+[A-Z\s]*$\<close>\<close>

definition caps_number_re :: regex where
  "caps_number_re = Seqs
     [Bol, Plus (Cls (\<lambda>c. is_AZ c \<or> is_space c)), Plus digit,
      Star (Cls (\<lambda>c. is_AZ c \<or> is_space c)), Eol]"

text \<open>
  \<open>\d{1,2}\s+(jan|feb|mar|apr|may|jun|jul|aug|sep|oct|nov|dec|january|february|march|april|may|june|july|august|september|october|november|december)\s+\d{4}\<close>
\<close>

definition month_date_re :: regex where
  "month_date_re = Seqs
     [Rep 1 2 digit, Plus space,
      Grp 1 (Alts (map Str
        [''jan'', ''feb'', ''mar'', ''apr'', ''may'', ''jun'', ''jul'', ''aug'', ''sep'', ''oct'',
         ''nov'', ''dec'', ''january'', ''february'', ''march'', ''april'', ''may'', ''june'',
         ''july'', ''august'', ''september'', ''october'', ''november'', ''december''])),
      Plus space, Rep 4 4 digit]"

text \<open>\<open>^\d+\.\s+\w+.*\s+(who|that|which|are|have|will|can|may|should)\<close>\<close>

definition list_item_re :: regex where
  "list_item_re = Seqs
     [Bol, Plus digit, Lit CHR ''.'', Plus space, Plus word, Star Dot, Plus space,
      Grp 1 (Alts (map Str
        [''who'', ''that'', ''which'', ''are'', ''have'', ''will'', ''can'', ''may'', ''should'']))]"

text \<open>\<open>^(chapter|section|part|appendix)\s+\<close>\<close>

definition chapter_re :: regex where
  "chapter_re = Seqs
     [Bol, Grp 1 (Alts (map Str [''chapter'', ''section'', ''part'', ''appendix''])), Plus space]"

text \<open>\<open>^\d+\.\<close>, \<open>^version\s+\<close> and \<open>^\d\<close>\<close>

definition number_dot_re :: regex where
  "number_dot_re = Seqs [Bol, Plus digit, Lit CHR ''.'']"

definition version_re :: regex where
  "version_re = Seqs [Bol, Str ''version'', Plus space]"

definition leading_digit_re :: regex where
  "leading_digit_re = Seqs [Bol, digit]"

section \<open>The exclusion filter and the pattern detector\<close>

text \<open>
  \<open>is_excluded_content\<close>: the length limits, then \<open>re.match\<close> of each exclusion pattern
  against the lowercased text.
\<close>

definition exclusion_patterns :: "regex list" where
  "exclusion_patterns = [legal_re, url_re, date_re]"

definition is_excluded_content :: "string \<Rightarrow> nat \<Rightarrow> bool" where
  "is_excluded_content text page =
     (let text_clean = strip text;
          text_lower = lower text_clean
      in if length text_clean < 3 \<or> length text_clean > 150 then True
         else list_ex (\<lambda>pattern. re_match pattern text_lower \<noteq> None) exclusion_patterns)"

text \<open>
  \<open>m.group(n)\<close> as a string, for the content group of a section pattern. The group takes
  part in every match of its pattern (lemma \<open>section_content_present\<close> below), so the case
  \<open>None\<close>, on which the source would raise, does not arise.
\<close>

definition group_str :: "match \<Rightarrow> nat \<Rightarrow> string" where
  "group_str m n = (case group m n of None \<Rightarrow> [] | Some s \<Rightarrow> s)"

text \<open>
  \<open>detect_heading_patterns\<close> returns \<open>(is_heading, level, confidence)\<close>. Group 2 of the
  numbered pattern is under a star: \<open>m.group(2)\<close> is the text of its last iteration, and
  \<open>None\<close> when there was none.
\<close>

definition numbered_level :: "string option \<Rightarrow> nat" where
  "numbered_level dots =
     (case dots of None \<Rightarrow> 1
      | Some d \<Rightarrow> if d = [] then 1 else min (count_char d CHR ''.'' + 1) 3)"

definition detect_heading_patterns :: "string \<Rightarrow> bool \<times> nat \<times> int" where
  "detect_heading_patterns text =
     (let text_stripped = strip text;
          numbered_match = re_match numbered_re text_stripped;
          numbered_content = (case numbered_match of None \<Rightarrow> [] | Some m \<Rightarrow> strip (group_str m 3));
          letter_match = re_match letter_re text_stripped;
          letter_content = (case letter_match of None \<Rightarrow> [] | Some m \<Rightarrow> strip (group_str m 3));
          roman_match = re_match roman_re text_stripped;
          roman_content = (case roman_match of None \<Rightarrow> [] | Some m \<Rightarrow> strip (group_str m 2))
      in if numbered_match \<noteq> None \<and> length numbered_content > 5
            \<and> re_match digits_re numbered_content = None
         then (True, numbered_level (case numbered_match of None \<Rightarrow> None | Some m \<Rightarrow> group m 2), 90)
         else if letter_match \<noteq> None \<and> length letter_content > 5 then (True, 1, 80)
         else if roman_match \<noteq> None \<and> length roman_content > 5 then (True, 1, 70)
         else if endswith text_stripped '':'' \<and> length text_stripped > 8
            \<and> re_search ratio_re text_stripped = None
            \<and> count_char text_stripped CHR '':'' = 1
         then (True, 2, 60)
         else if isupper text_stripped \<and> 10 \<le> length text_stripped \<and> length text_stripped \<le> 60
            \<and> re_match caps_number_re text_stripped = None
         then (True, 1, 50)
         else (False, 0, 0))"

section \<open>Floats\<close>

text \<open>
  Font sizes and positions are floats in the source. A float is modelled by the real
  number it stands for (there is no infinity and no NaN). A comparison of floats is exact;
  a division or a subtraction gives the double nearest to the exact result, the even
  mantissa on a tie, and a decimal literal stands for the double nearest to it. \<open>double\<close>
  rounds a real to 53 significant bits in this way: \<open>binade x\<close> is the exponent \<open>e\<close> with
  \<open>2 ^ e \<le> x < 2 ^ (e + 1)\<close>, and the result is a multiple of \<open>2 ^ (e - 52)\<close>. The range
  of the exponent is not limited: a quotient beyond the range of the doubles compares
  with the thresholds of the source, which lie between 1 and 2, as the infinity or the
  tiny number does that the source gets.
\<close>

function binade :: "real \<Rightarrow> int" where
  "binade x =
     (if x \<le> 0 then 0
      else if 2 \<le> x then binade (x / 2) + 1
      else if x < 1 then binade (x * 2) - 1
      else 0)"
  by pat_completeness auto
termination
proof (relation "measure (\<lambda>x. nat \<bar>\<lfloor>log 2 x\<rfloor>\<bar>)")
  show "wf (measure (\<lambda>x. nat \<bar>\<lfloor>log 2 x\<rfloor>\<bar>))" by simp
next
  fix x :: real
  assume "\<not> x \<le> 0" and "2 \<le> x"
  then have "log 2 (x / 2) = log 2 x - 1" by (simp add: log_divide)
  moreover have "1 \<le> log 2 x" using \<open>2 \<le> x\<close> by (simp add: le_log_iff)
  ultimately show "(x / 2, x) \<in> measure (\<lambda>x. nat \<bar>\<lfloor>log 2 x\<rfloor>\<bar>)"
    by simp
next
  fix x :: real
  assume "\<not> x \<le> 0" and "\<not> 2 \<le> x" and "x < 1"
  then have "log 2 (x * 2) = log 2 x + 1" by (simp add: log_mult)
  then have "\<lfloor>log 2 (x * 2)\<rfloor> = \<lfloor>log 2 x\<rfloor> + 1" by simp
  moreover have "log 2 x < 0" using \<open>\<not> x \<le> 0\<close> \<open>x < 1\<close> by simp
  then have "\<lfloor>log 2 x\<rfloor> < 0" by (simp add: floor_less_iff)
  ultimately have "nat \<bar>\<lfloor>log 2 (x * 2)\<rfloor>\<bar> < nat \<bar>\<lfloor>log 2 x\<rfloor>\<bar>" by linarith
  then show "(x * 2, x) \<in> measure (\<lambda>x. nat \<bar>\<lfloor>log 2 x\<rfloor>\<bar>)" by simp
qed

definition round_even :: "real \<Rightarrow> int" where
  "round_even y =
     (let f = \<lfloor>y\<rfloor>; d = y - of_int f
      in if d < 1 / 2 then f else if 1 / 2 < d then f + 1 else if even f then f else f + 1)"

definition pow2 :: "int \<Rightarrow> real" where
  "pow2 e = (if 0 \<le> e then 2 ^ nat e else 1 / 2 ^ nat (- e))"

definition double :: "real \<Rightarrow> real" where
  "double x =
     (if x = 0 then 0
      else (let ulp = pow2 (binade \<bar>x\<bar> - 52) in of_int (round_even (x / ulp)) * ulp))"

section \<open>The document and its text blocks\<close>

text \<open>
  The exceptions of the source. \<open>d[k]\<close> on a dictionary without the key \<open>k\<close> raises
  \<open>KeyError\<close>; a value under a key is \<open>None\<close> here when the dictionary lacks the key.
  \<open>and_then\<close> goes on with the value of a step, or stops with the exception it raised, and
  \<open>each\<close> is a loop that appends what its body gives for every element, up to the first
  exception.
\<close>

datatype py_error = ZeroDivisionError | IndexError | KeyError string

definition item :: "string \<Rightarrow> 'a option \<Rightarrow> py_error + 'a" where
  "item k v = (case v of None \<Rightarrow> Inl (KeyError k) | Some x \<Rightarrow> Inr x)"

definition and_then :: "py_error + 'a \<Rightarrow> ('a \<Rightarrow> py_error + 'b) \<Rightarrow> py_error + 'b" where
  "and_then r f = (case r of Inl e \<Rightarrow> Inl e | Inr x \<Rightarrow> f x)"

fun each :: "('a \<Rightarrow> py_error + 'b list) \<Rightarrow> 'a list \<Rightarrow> py_error + 'b list" where
  "each f [] = Inr []"
| "each f (x # xs) = and_then (f x) (\<lambda>ys. and_then (each f xs) (\<lambda>zs. Inr (ys @ zs)))"

text \<open>
  The document is what the PDF library hands over: per page the blocks of
  \<open>page.get_text("dict")\<close>, a block with or without lines, a line with its spans. A span
  or a line may lack any of the keys that the source reads; values of another type than
  the source expects are not modelled.
\<close>

type_synonym rect = "real \<times> real \<times> real \<times> real"

record raw_span =
  span_text :: "string option"
  span_size :: "real option"
  span_flags :: "int option"
  span_font :: "string option"
  span_bbox :: "rect option"

record raw_line =
  line_spans :: "raw_span list option"
  line_bbox :: "rect option"

record raw_block =
  block_lines :: "raw_line list option"

type_synonym document = "raw_block list list"

record text_block =
  btext :: string
  font_size :: real
  font_flags :: int
  font_name :: string
  x_position :: real
  y_position :: real
  page :: nat
  is_bold :: bool
  bbox :: rect
  line_height :: real

text \<open>\<open>max(xs, key=f)\<close> on a list \<open>x # xs\<close>: the first element whose key is the largest.\<close>

fun max_by :: "('a \<Rightarrow> nat) \<Rightarrow> 'a \<Rightarrow> 'a list \<Rightarrow> 'a" where
  "max_by f best [] = best"
| "max_by f best (x # xs) = (if f best < f x then max_by f x xs else max_by f best xs)"

text \<open>
  The body of the loop over the lines of \<open>extract_text_blocks\<close>: one line, no or one block.
  The first loop reads the text of every span and keeps the spans whose text is not blank,
  here with their texts; the keys of the dominant span and the box of the line are read
  in the order of the dictionary display of the source.
\<close>

definition kept_span :: "raw_span \<Rightarrow> py_error + (raw_span \<times> string) list" where
  "kept_span s =
     and_then (item ''text'' (span_text s))
       (\<lambda>text. Inr (if strip text \<noteq> [] then [(s, text)] else []))"

definition line_text_block :: "nat \<Rightarrow> raw_line \<Rightarrow> py_error + text_block list" where
  "line_text_block page_num line =
     and_then (item ''spans'' (line_spans line)) (\<lambda>spans.
     and_then (each kept_span spans) (\<lambda>kept.
       (let line_text = strip (concat (map (\<lambda>(span, text). strip text @ '' '') kept))
        in if line_text = [] \<or> length line_text < 2 then Inr []
           else case kept of
             [] \<Rightarrow> Inr []
           | k # ks \<Rightarrow>
               (let dominant_span = fst (max_by (\<lambda>(span, text). length text) k ks)
                in and_then (item ''size'' (span_size dominant_span)) (\<lambda>size.
                   and_then (item ''flags'' (span_flags dominant_span)) (\<lambda>flags.
                   and_then (item ''bbox'' (span_bbox dominant_span)) (\<lambda>box.
                   and_then (item ''bbox'' (line_bbox line)) (\<lambda>line_box.
                     Inr [\<lparr>btext = line_text,
                           font_size = size,
                           font_flags = flags,
                           font_name = (case span_font dominant_span of None \<Rightarrow> [] | Some f \<Rightarrow> f),
                           x_position = fst box,
                           y_position = fst (snd box),
                           page = page_num + 1,
                           is_bold = bit flags 4,
                           bbox = box,
                           line_height =
                             double (snd (snd (snd line_box)) - fst (snd line_box))\<rparr>]))))))))"

definition page_text_blocks :: "nat \<Rightarrow> raw_block list \<Rightarrow> py_error + text_block list" where
  "page_text_blocks page_num blocks =
     each (\<lambda>block. case block_lines block of
                     None \<Rightarrow> Inr []
                   | Some ls \<Rightarrow> each (line_text_block page_num) ls) blocks"

definition extract_text_blocks :: "document \<Rightarrow> py_error + text_block list" where
  "extract_text_blocks doc =
     each (\<lambda>page_num. page_text_blocks page_num (doc ! page_num)) [0..<length doc]"

section \<open>Font analysis\<close>

text \<open>
  A \<open>Counter\<close> keeps its keys in the order of their first insertion; \<open>most_common(1)\<close> is the
  first entry with the largest count, and the empty list for an empty counter.
\<close>

fun count_up :: "'a \<Rightarrow> ('a \<times> nat) list \<Rightarrow> ('a \<times> nat) list" where
  "count_up x [] = [(x, 1)]"
| "count_up x ((k, n) # kns) = (if k = x then (k, n + 1) # kns else (k, n) # count_up x kns)"

definition Counter :: "'a list \<Rightarrow> ('a \<times> nat) list" where
  "Counter xs = fold count_up xs []"

definition most_common1 :: "('a \<times> nat) list \<Rightarrow> ('a \<times> nat) list" where
  "most_common1 c = (case c of [] \<Rightarrow> [] | kn # kns \<Rightarrow> [max_by snd kn kns])"

record font_analysis =
  body_font_size :: real
  body_font_name :: string
  percentiles :: "(nat \<times> real) list"
  size_distribution :: "(real \<times> nat) list"
  unique_sizes :: nat
  min_size :: real
  max_size :: real

text \<open>
  \<open>analyze_fonts\<close>. \<open>most_common(1)[0][0]\<close> raises \<open>IndexError\<close> on an empty counter. The index
  \<open>int(0.85 * len(sorted_sizes))\<close> is written \<open>85 * n div 100\<close>, and so for the others.
\<close>

definition analyze_fonts :: "text_block list \<Rightarrow> py_error + font_analysis" where
  "analyze_fonts text_blocks =
     (let font_sizes = map font_size text_blocks;
          font_names = map font_name text_blocks;
          font_counter = Counter font_sizes;
          name_counter = Counter font_names
      in case most_common1 font_counter of
           [] \<Rightarrow> Inl IndexError
         | (body_size, _) # _ \<Rightarrow>
        (case most_common1 name_counter of
           [] \<Rightarrow> Inl IndexError
         | (body_name, _) # _ \<Rightarrow>
            (let sorted_sizes = sort font_sizes;
                 n = length sorted_sizes
             in Inr \<lparr>body_font_size = body_size,
                     body_font_name = body_name,
                     percentiles = map (\<lambda>p. (p, sorted_sizes ! (p * n div 100))) [50, 75, 85, 90, 95],
                     size_distribution = font_counter,
                     unique_sizes = card (set font_sizes),
                     min_size = Min (set font_sizes),
                     max_size = Max (set font_sizes)\<rparr>)))"

section \<open>Confidence scoring\<close>

text \<open>
  \<open>calculate_heading_likelihood\<close>, with \<open>self.all_text_blocks\<close> as its first argument. The
  running pair is \<open>(total_confidence, suggested_level)\<close>; the steps below are the numbered
  parts of the source, in its order. The division by a body size of zero raises.
\<close>

type_synonym score = "int \<times> nat"

definition pattern_step :: "string \<Rightarrow> score \<Rightarrow> score" where
  "pattern_step text sc =
     (case detect_heading_patterns text of
        (has_pattern, pattern_level, pattern_confidence) \<Rightarrow>
          if has_pattern then (fst sc + pattern_confidence, pattern_level) else sc)"

definition font_size_step :: "real \<Rightarrow> score \<Rightarrow> score" where
  "font_size_step size_ratio sc =
     (if size_ratio \<ge> double 1.5 then
        (fst sc + 60,
         if size_ratio \<ge> double 2.0 then min (snd sc) 1
         else if size_ratio \<ge> double 1.8 then min (snd sc) 2
         else snd sc)
      else if size_ratio \<ge> double 1.2 then (fst sc + 30, min (snd sc) 3)
      else sc)"

definition bold_step :: "bool \<Rightarrow> score \<Rightarrow> score" where
  "bold_step bold sc = (if bold then (fst sc + 25, max 1 (snd sc - 1)) else sc)"

definition family_step :: "string \<Rightarrow> string \<Rightarrow> score \<Rightarrow> score" where
  "family_step name body_name sc = (if name \<noteq> body_name then (fst sc + 15, snd sc) else sc)"

definition position_step :: "real \<Rightarrow> score \<Rightarrow> score" where
  "position_step x sc = (if x < 100 then (fst sc + 10, snd sc) else sc)"

definition penalty_words :: "string list" where
  "penalty_words = [''copyright'', [CHR 0xA9], ''page'', ''version'']"

definition structure_words :: "string list" where
  "structure_words = [''table of contents'', ''acknowledgements'', ''references'',
     ''introduction'', ''conclusion'', ''overview'']"

definition occurrences :: "text_block list \<Rightarrow> string \<Rightarrow> nat" where
  "occurrences all_text_blocks text =
     length (filter (\<lambda>b. strip (lower (btext b)) = strip (lower text)) all_text_blocks)"

definition content_delta :: "text_block list \<Rightarrow> string \<Rightarrow> bool \<Rightarrow> int" where
  "content_delta all_text_blocks text has_pattern =
     (if list_ex (\<lambda>w. contains w (lower text)) penalty_words then - 40 else 0)
   + (if re_search month_date_re (lower text) \<noteq> None then - 80 else 0)
   + (if length (split_ws text) > 12 \<and> \<not> has_pattern then - 30 else 0)
   + (if re_match list_item_re (lower text) \<noteq> None then - 50 else 0)
   + (if re_search chapter_re (lower text) \<noteq> None then 30 else 0)
   + (if list_ex (\<lambda>w. contains w (lower text)) structure_words
         \<and> occurrences all_text_blocks text \<le> 2 then 20 else 0)"

definition level_map :: "nat \<Rightarrow> string" where
  "level_map l = (if l = 1 then ''H1'' else if l = 2 then ''H2'' else if l = 3 then ''H3'' else ''H3'')"

definition calculate_heading_likelihood ::
    "text_block list \<Rightarrow> text_block \<Rightarrow> font_analysis \<Rightarrow> py_error + (bool \<times> string option \<times> int)" where
  "calculate_heading_likelihood all_text_blocks block fa =
     (if is_excluded_content (btext block) (page block) then Inr (False, None, 0)
      else if body_font_size fa = 0 then Inl ZeroDivisionError
      else
        (let text = btext block;
             size_ratio = double (font_size block / body_font_size fa);
             sc = position_step (x_position block)
                   (family_step (font_name block) (body_font_name fa)
                     (bold_step (is_bold block)
                       (font_size_step size_ratio
                         (pattern_step text (0, 3)))));
             total_confidence = fst sc + content_delta all_text_blocks text (fst (detect_heading_patterns text))
         in Inr (total_confidence \<ge> 80, Some (level_map (snd sc)), total_confidence)))"

section \<open>Title selection\<close>

definition is_title_candidate :: "text_block \<Rightarrow> bool" where
  "is_title_candidate block =
     (let text = strip (btext block)
      in length text > 5
         \<and> \<not> is_excluded_content text 1
         \<and> re_match number_dot_re text = None
         \<and> re_match version_re (lower text) = None
         \<and> y_position block < 300)"

definition is_fallback_title :: "text_block \<Rightarrow> bool" where
  "is_fallback_title block =
     (let text = strip (btext block)
      in length text > 10
         \<and> \<not> startswith (lower text) ''copyright''
         \<and> re_match leading_digit_re text = None)"

definition generic_titles :: "string list" where
  "generic_titles = [''overview'', ''introduction'', ''document'', ''foundation level'']"

definition is_meaningful_title :: "text_block \<Rightarrow> bool" where
  "is_meaningful_title candidate =
     (let title = strip (btext candidate)
      in length (split_ws title) \<ge> 2 \<and> \<not> List.member generic_titles (lower title))"

definition clean_title :: "string \<Rightarrow> string" where
  "clean_title title =
     (let t = sub_ws title in if length t > 100 then take 100 t @ ''...'' else t)"

definition extract_title :: "text_block list \<Rightarrow> string" where
  "extract_title text_blocks =
     (let first_page_blocks = filter (\<lambda>b. page b = 1) text_blocks
      in if first_page_blocks = [] then ''Untitled Document''
         else
           (let title_candidates = filter is_title_candidate first_page_blocks
            in if title_candidates = [] then
                 (case find is_fallback_title first_page_blocks of
                    Some block \<Rightarrow> strip (btext block)
                  | None \<Rightarrow> ''Document'')
               else
                 (let sorted_candidates =
                        sort_key (\<lambda>x. (- font_size x, y_position x)) title_candidates
                  in case find is_meaningful_title (take 3 sorted_candidates) of
                       Some candidate \<Rightarrow> clean_title (strip (btext candidate))
                     | None \<Rightarrow> clean_title (strip (btext (hd sorted_candidates))))))"

section \<open>Outline assembly\<close>

record heading =
  h_text :: string
  h_page :: nat
  h_level :: "string option"
  h_confidence :: int
  h_font_size :: real

text \<open>
  The result dictionary. \<open>metadata\<close> is the page count under the key \<open>metadata\<close>, and \<open>None\<close>
  for a dictionary without that key.
\<close>

record outline_result =
  title :: string
  outline :: "heading list"
  metadata :: "nat option"

type_synonym key = "string \<times> nat"

text \<open>The loop over the blocks that collects \<open>headings\<close> and \<open>seen_texts\<close>.\<close>

fun collect_headings ::
    "text_block list \<Rightarrow> font_analysis \<Rightarrow> text_block list \<Rightarrow> heading list \<Rightarrow> key set
       \<Rightarrow> py_error + heading list" where
  "collect_headings all_text_blocks fa [] headings seen_texts = Inr headings"
| "collect_headings all_text_blocks fa (block # rest) headings seen_texts =
     (let text_clean = strip (btext block)
      in if text_clean = [] \<or> (lower text_clean, page block) \<in> seen_texts
         then collect_headings all_text_blocks fa rest headings seen_texts
         else
           (case calculate_heading_likelihood all_text_blocks block fa of
              Inl e \<Rightarrow> Inl e
            | Inr (is_heading, level, confidence) \<Rightarrow>
                if is_heading
                then collect_headings all_text_blocks fa rest
                       (headings @ [\<lparr>h_text = text_clean, h_page = page block, h_level = level,
                                      h_confidence = confidence, h_font_size = font_size block\<rparr>])
                       (insert (lower text_clean, page block) seen_texts)
                else collect_headings all_text_blocks fa rest headings seen_texts))"

text \<open>The loop that fills \<open>heading_positions\<close>: the first y-position seen for each key.\<close>

fun record_positions :: "text_block list \<Rightarrow> (key \<rightharpoonup> real) \<Rightarrow> (key \<rightharpoonup> real)" where
  "record_positions [] heading_positions = heading_positions"
| "record_positions (block # rest) heading_positions =
     (let k = (lower (strip (btext block)), page block)
      in if heading_positions k = None
         then record_positions rest (heading_positions(k \<mapsto> y_position block))
         else record_positions rest heading_positions)"

definition sort_key_of :: "(key \<rightharpoonup> real) \<Rightarrow> heading \<Rightarrow> nat \<times> real" where
  "sort_key_of heading_positions heading =
     (let k = (lower (h_text heading), h_page heading);
          y_pos = (case heading_positions k of None \<Rightarrow> 0 | Some y \<Rightarrow> y)
      in (h_page heading, y_pos))"

definition extract_outline :: "document \<Rightarrow> py_error + outline_result" where
  "extract_outline doc =
     (case extract_text_blocks doc of
        Inl e \<Rightarrow> Inl e
      | Inr text_blocks \<Rightarrow>
         if text_blocks = []
         then Inr \<lparr>title = ''Empty Document'', outline = [], metadata = Some (length doc)\<rparr>
         else
           (case analyze_fonts text_blocks of
              Inl e \<Rightarrow> Inl e
            | Inr fa \<Rightarrow>
               (let the_title = extract_title text_blocks
                in case collect_headings text_blocks fa text_blocks [] {} of
                     Inl e \<Rightarrow> Inl e
                   | Inr headings \<Rightarrow>
                       (let heading_positions = record_positions text_blocks Map.empty
                        in Inr \<lparr>title = the_title,
                                outline = sort_key (sort_key_of heading_positions) headings,
                                metadata = Some (length doc)\<rparr>))))"

text \<open>
  \<open>extract_pdf_outline\<close>. Opening the file is the work of the PDF library: its outcome, the
  document or the exception raised, is the argument. \<open>except Exception\<close> turns every
  exception of the body into the dictionary with the title \<open>Error\<close>.
\<close>

datatype opened = Opened document | OpenFailed

definition extract_pdf_outline :: "opened \<Rightarrow> outline_result" where
  "extract_pdf_outline pdf =
     (case pdf of
        OpenFailed \<Rightarrow> \<lparr>title = ''Error'', outline = [], metadata = None\<rparr>
      | Opened doc \<Rightarrow>
          (case extract_outline doc of
             Inl e \<Rightarrow> \<lparr>title = ''Error'', outline = [], metadata = None\<rparr>
           | Inr result \<Rightarrow> result))"

section \<open>Notions used to state the properties\<close>

text \<open>
  The key under which the loop of \<open>extract_outline\<close> remembers a block, and the same pair
  read off an entry of the outline.
\<close>

definition block_key :: "text_block \<Rightarrow> key" where
  "block_key b = (lower (strip (btext b)), page b)"

definition entry_key :: "heading \<Rightarrow> key" where
  "entry_key h = (lower (strip (h_text h)), h_page h)"

text \<open>
  The entry a block is accepted with: its text is not blank and the scorer says it is a
  heading. \<open>None\<close> for a block that is not accepted.
\<close>

definition accepted_heading :: "text_block list \<Rightarrow> font_analysis \<Rightarrow> text_block \<Rightarrow> heading option" where
  "accepted_heading all_text_blocks fa b =
     (if strip (btext b) = [] then None
      else case calculate_heading_likelihood all_text_blocks b fa of
             Inr (True, level, confidence) \<Rightarrow>
               Some \<lparr>h_text = strip (btext b), h_page = page b, h_level = level,
                     h_confidence = confidence, h_font_size = font_size b\<rparr>
           | _ \<Rightarrow> None)"

text \<open>The y-position of the first block, of all blocks, that has the key.\<close>

definition recorded_y :: "text_block list \<Rightarrow> key \<Rightarrow> real" where
  "recorded_y text_blocks k =
     (case find (\<lambda>b. block_key b = k) text_blocks of None \<Rightarrow> 0 | Some b \<Rightarrow> y_position b)"

text \<open>
  The invariant of the loop that collects the headings, after the blocks \<open>pre\<close>: the seen
  keys are those of the headings, no key occurs twice, every heading is the entry of the
  first accepted block with its key, and an accepted block has its key among the seen ones.
\<close>

definition heading_inv ::
    "text_block list \<Rightarrow> font_analysis \<Rightarrow> text_block list \<Rightarrow> heading list \<Rightarrow> key set \<Rightarrow> bool" where
  "heading_inv al fa pre hs seen \<longleftrightarrow>
     seen = entry_key ` set hs \<and>
     distinct (map entry_key hs) \<and>
     (\<forall>h \<in> set hs. \<exists>i < length pre. accepted_heading al fa (pre ! i) = Some h \<and>
        (\<forall>j < i. block_key (pre ! j) = block_key (pre ! i) \<longrightarrow>
           accepted_heading al fa (pre ! j) = None)) \<and>
     (\<forall>b \<in> set pre. accepted_heading al fa b \<noteq> None \<longrightarrow> block_key b \<in> seen)"

text \<open>
  Patterns without a capturing group, and the texts with one dot: what one repetition of
  \<open>(\.\d+)\<close> captures.
\<close>

fun nogrp :: "regex \<Rightarrow> bool" where
  "nogrp (Seq a b) = (nogrp a \<and> nogrp b)"
| "nogrp (Alt a b) = (nogrp a \<and> nogrp b)"
| "nogrp (Star a) = nogrp a"
| "nogrp (Grp n a) = False"
| "nogrp r = True"

definition one_dot :: "string \<Rightarrow> bool" where
  "one_dot t = (t \<noteq> [] \<and> count_char t CHR ''.'' = 1)"

text \<open>A document in which some span of some line lacks the key \<open>text\<close>.\<close>

definition line_lacks_text :: "raw_line \<Rightarrow> bool" where
  "line_lacks_text l =
     (case line_spans l of None \<Rightarrow> False | Some spans \<Rightarrow> list_ex (\<lambda>s. span_text s = None) spans)"

definition block_lacks_text :: "raw_block \<Rightarrow> bool" where
  "block_lacks_text b =
     (case block_lines b of None \<Rightarrow> False | Some ls \<Rightarrow> list_ex line_lacks_text ls)"

definition lacks_text :: "document \<Rightarrow> bool" where
  "lacks_text doc = list_ex (list_ex block_lacks_text) doc"

text \<open>
  A block that the loop of \<open>extract_outline\<close> hands to the scorer and that the scorer does
  not exclude: for such a block the scorer divides by the body font size.
\<close>

definition scored :: "text_block \<Rightarrow> bool" where
  "scored b = (strip (btext b) \<noteq> [] \<and> \<not> is_excluded_content (btext b) (page b))"

text \<open>The dictionary that \<open>extract_pdf_outline\<close> returns for an exception.\<close>

definition error_result :: outline_result where
  "error_result = \<lparr>title = ''Error'', outline = [], metadata = None\<rparr>"

section \<open>Example documents\<close>

text \<open>A line of one span, 300 wide, as the PDF library reports it.\<close>

definition text_line :: "string \<Rightarrow> real \<Rightarrow> bool \<Rightarrow> string \<Rightarrow> real \<Rightarrow> real \<Rightarrow> raw_line" where
  "text_line t sz bold fnt x y =
     \<lparr>line_spans = Some [\<lparr>span_text = Some t, span_size = Some sz,
                           span_flags = Some (if bold then 16 else 0),
                           span_font = Some fnt, span_bbox = Some (x, y, x + 300, y + sz)\<rparr>],
      line_bbox = Some (x, y, x + 300, y + sz)\<rparr>"

text \<open>The text block that \<open>extract_text_blocks\<close> makes of such a line on page \<open>p\<close>.\<close>

definition line_block :: "nat \<Rightarrow> string \<Rightarrow> real \<Rightarrow> bool \<Rightarrow> string \<Rightarrow> real \<Rightarrow> real \<Rightarrow> text_block" where
  "line_block p t sz bold fnt x y =
     \<lparr>btext = t, font_size = sz, font_flags = (if bold then 16 else 0), font_name = fnt,
      x_position = x, y_position = y, page = p, is_bold = bold,
      bbox = (x, y, x + 300, y + sz), line_height = double (y + sz - y)\<rparr>"

text \<open>
  Two pages. On the first, two numbered headings out of vertical order and a repetition of
  the first in capitals. On the second, after a block without lines, the first heading
  again, and a line in the body font that is repeated further up the page as a heading in
  capitals. The body lines are the most frequent size.
\<close>

definition sample_doc :: document where
  "sample_doc =
    [[\<lparr>block_lines = Some
        [text_line ''Body text'' 10 False ''Times'' 72 100,
         text_line ''1. Design'' 14 True ''Arial'' 72 300,
         text_line ''2. Method'' 14 True ''Arial'' 72 200,
         text_line ''1. DESIGN'' 12 True ''Times'' 72 500]\<rparr>],
     [\<lparr>block_lines = None\<rparr>,
      \<lparr>block_lines = Some
        [text_line ''1. Design'' 14 True ''Arial'' 72 100,
         text_line ''Design Notes'' 10 False ''Times'' 72 400,
         text_line ''DESIGN NOTES'' 14 True ''Arial'' 72 50,
         text_line ''Body text'' 10 False ''Times'' 72 420,
         text_line ''Body text'' 10 False ''Times'' 72 440]\<rparr>]]"

definition sample_blocks :: "text_block list" where
  "sample_blocks =
     [line_block 1 ''Body text'' 10 False ''Times'' 72 100,
      line_block 1 ''1. Design'' 14 True ''Arial'' 72 300,
      line_block 1 ''2. Method'' 14 True ''Arial'' 72 200,
      line_block 1 ''1. DESIGN'' 12 True ''Times'' 72 500,
      line_block 2 ''1. Design'' 14 True ''Arial'' 72 100,
      line_block 2 ''Design Notes'' 10 False ''Times'' 72 400,
      line_block 2 ''DESIGN NOTES'' 14 True ''Arial'' 72 50,
      line_block 2 ''Body text'' 10 False ''Times'' 72 420,
      line_block 2 ''Body text'' 10 False ''Times'' 72 440]"

definition sample_fonts :: font_analysis where
  "sample_fonts =
     \<lparr>body_font_size = 10, body_font_name = ''Times'',
      percentiles = [(50, 12), (75, 14), (85, 14), (90, 14), (95, 14)],
      size_distribution = [(10, 4), (14, 4), (12, 1)],
      unique_sizes = 3, min_size = 10, max_size = 14\<rparr>"

definition sample_entry :: "string \<Rightarrow> nat \<Rightarrow> int \<Rightarrow> heading" where
  "sample_entry t p c =
     \<lparr>h_text = t, h_page = p, h_level = Some ''H1'', h_confidence = c, h_font_size = 14\<rparr>"

definition sample_result :: outline_result where
  "sample_result =
     \<lparr>title = ''Body text'',
      outline = [sample_entry ''2. Method'' 1 170, sample_entry ''1. Design'' 1 170,
                 sample_entry ''1. Design'' 2 170, sample_entry ''DESIGN NOTES'' 2 130],
      metadata = Some 2\<rparr>"

text \<open>A document whose only line has font size zero, so that the body font size is zero.\<close>

definition zero_doc :: document where
  "zero_doc = [[\<lparr>block_lines = Some [text_line ''Hidden text'' 0 False ''Times'' 72 100]\<rparr>]]"

text \<open>A document with a span that lacks the key \<open>size\<close>.\<close>

definition broken_doc :: document where
  "broken_doc =
     [[\<lparr>block_lines = Some
         [\<lparr>line_spans = Some [\<lparr>span_text = Some ''Body text'', span_size = None,
                                span_flags = Some 0, span_font = Some ''Times'',
                                span_bbox = Some (72, 100, 372, 110)\<rparr>],
           line_bbox = Some (72, 100, 372, 110)\<rparr>]\<rparr>]]"

text \<open>A document with a span that lacks the key \<open>text\<close>, after a line that is well formed.\<close>

definition textless_doc :: document where
  "textless_doc =
     [[\<lparr>block_lines = Some
         [text_line ''Body text'' 10 False ''Times'' 72 100,
          \<lparr>line_spans = Some [\<lparr>span_text = None, span_size = Some 10,
                                span_flags = Some 0, span_font = Some ''Times'',
                                span_bbox = Some (72, 120, 372, 130)\<rparr>],
           line_bbox = Some (72, 120, 372, 130)\<rparr>]\<rparr>]]"

text \<open>Two pages without text, and a document whose first page has none.\<close>

definition blank_doc :: document where
  "blank_doc = [[], [\<lparr>block_lines = None\<rparr>]]"

definition late_doc :: document where
  "late_doc = [[], [\<lparr>block_lines = Some [text_line ''Body text'' 10 False ''Times'' 72 100]\<rparr>]]"

text \<open>The spans of the two scoring scenarios, and a font analysis with body size 10.\<close>

definition scenario_fonts :: font_analysis where
  "scenario_fonts =
     \<lparr>body_font_size = 10, body_font_name = ''Times'', percentiles = [],
      size_distribution = [], unique_sizes = 1, min_size = 10, max_size = 10\<rparr>"

definition overview_span :: text_block where
  "overview_span = line_block 1 ''1.2 System Overview'' 14 True ''Times'' 120 200"

text \<open>
  A date in a font of size 13.2 (the double nearest to it) on a body of size 11: the exact
  quotient is below 1.2, the rounded one is the double 1.2.
\<close>

definition rounded_date_span :: text_block where
  "rounded_date_span = line_block 1 ''15 March 2023'' (double 13.2) True ''Arial'' 72 200"

definition eleven_fonts :: font_analysis where
  "eleven_fonts =
     \<lparr>body_font_size = 11, body_font_name = ''Times'', percentiles = [],
      size_distribution = [], unique_sizes = 1, min_size = 11, max_size = 11\<rparr>"

definition date_span :: text_block where
  "date_span = line_block 1 ''15 March 2023'' 20 False ''Times'' 72 200"

definition small_date_span :: text_block where
  "small_date_span = line_block 1 ''15 March 2023'' 10 True ''Arial'' 72 200"

section \<open>Lower case\<close>

text \<open>Setting bit 5 of an upper-case letter adds 32 to its code point.\<close>

lemma lower_char_code: "is_upper c \<Longrightarrow> code (lower_char c) = code c + 32"
proof (cases c)
  case (Char b0 b1 b2 b3 b4 b5 b6 b7)
  assume up: "is_upper c"
  have "\<not> b5"
  proof
    assume b5
    with up show False
      unfolding Char
      by (cases b6; cases b7; simp add: is_upper_def between_def code_def of_bool_def split: if_splits)
  qed
  then show ?thesis
    using up unfolding Char by (simp add: lower_char_def code_def)
qed

section \<open>Evaluation\<close>

text \<open>
  The definitions that the simplifier unfolds to run the string functions and the
  patterns on a given text.
\<close>

lemma Rep_unfold:
  "Rep 1 2 r = Seq r (Opt (Seq r Eps))"
  "Rep 2 4 r = Seq r (Seq r (Opt (Seq r (Opt (Seq r Eps)))))"
  "Rep 4 4 r = Seq r (Seq r (Seq r (Seq r Eps)))"
  by (simp_all add: eval_nat_numeral)

lemmas ev = Rep_unfold code_def between_def is_space_def is_digit_def is_upper_def is_lower_def is_word_def lower_char_def
  lower_def strip_def isupper_def startswith_def endswith_def count_char_def advanced_def capture_def Plus_def Opt_def
  re_match_def re_search_def group_def digit_def space_def word_def is_AZ_def legal_re_def url_re_def date_re_def
  numbered_re_def digits_re_def letter_re_def roman_re_def ratio_re_def caps_number_re_def month_date_re_def
  list_item_re_def chapter_re_def number_dot_re_def version_re_def leading_digit_re_def exclusion_patterns_def
  is_excluded_content_def group_str_def numbered_level_def detect_heading_patterns_def
  penalty_words_def structure_words_def content_delta_def level_map_def

lemmas fl = double_def round_even_def pow2_def

lemmas blocks_defs = extract_text_blocks_def page_text_blocks_def line_text_block_def kept_span_def
  item_def and_then_def text_line_def line_block_def strip_def is_space_def between_def code_def
  upt_rec

lemmas score_defs = calculate_heading_likelihood_def pattern_step_def font_size_step_def bold_step_def
  family_step_def position_step_def level_map_def

lemma line_block_sel:
  "btext (line_block p t sz bold fnt x y) = t"
  "page (line_block p t sz bold fnt x y) = p"
  "font_size (line_block p t sz bold fnt x y) = sz"
  "font_name (line_block p t sz bold fnt x y) = fnt"
  "is_bold (line_block p t sz bold fnt x y) = bold"
  "x_position (line_block p t sz bold fnt x y) = x"
  "y_position (line_block p t sz bold fnt x y) = y"
  by (simp_all add: line_block_def)

section \<open>Properties of the matcher\<close>

text \<open>
  What the states reached by a pattern can be: a sequence goes through a state in between,
  a star stops or makes one advancing iteration and goes on, a pattern without groups
  leaves the captures alone.
\<close>

lemma run_Seq_iff:
  "st' \<in> set (run (Seq a b) st) \<longleftrightarrow> (\<exists>mid \<in> set (run a st). st' \<in> set (run b mid))"
  by auto

lemma run_Star_cases:
  assumes "st' \<in> set (run (Star a) st)"
  shows "st' = st \<or> (\<exists>mid \<in> set (run a st). advanced st mid \<and> st' \<in> set (run (Star a) mid))"
proof -
  have "run (Star a) st = concat (map (run (Star a)) (filter (advanced st) (run a st))) @ [st]"
    by (rule run.simps)
  with assms have "st' \<in> set (concat (map (run (Star a)) (filter (advanced st) (run a st))) @ [st])"
    by (simp only:)
  then show ?thesis by (auto simp del: run.simps)
qed

lemma run_Cls_elem:
  "st' \<in> set (run (Cls P) st) \<longleftrightarrow>
     (\<exists>x xs. fst (snd st) = x # xs \<and> P x \<and> st' = (Suc (fst st), xs, snd (snd st)))"
  by (cases "fst (snd st)") auto

lemma run_Lit_elem:
  "st' \<in> set (run (Lit c) st) \<longleftrightarrow>
     (\<exists>xs. fst (snd st) = c # xs \<and> st' = (Suc (fst st), xs, snd (snd st)))"
  by (cases "fst (snd st)") auto

text \<open>A repeated character class consumes characters of the class and captures nothing.\<close>

lemma run_Star_Cls:
  "st' \<in> set (run (Star (Cls P)) st) \<Longrightarrow>
     \<exists>w. fst (snd st) = w @ fst (snd st') \<and> list_all P w \<and> fst st' = fst st + length w \<and>
         snd (snd st') = snd (snd st)"
proof (induction "length (fst (snd st))" arbitrary: st rule: less_induct)
  case less
  from run_Star_cases[OF less.prems] consider "st' = st"
    | mid where "mid \<in> set (run (Cls P) st)" "advanced st mid" "st' \<in> set (run (Star (Cls P)) mid)"
    by blast
  then show ?case
  proof cases
    case 1
    then show ?thesis by (intro exI[of _ "[]"]) simp
  next
    case 2
    from 2(1) obtain x xs where x: "fst (snd st) = x # xs" "P x" "mid = (Suc (fst st), xs, snd (snd st))"
      unfolding run_Cls_elem by blast
    from 2(2) have "length (fst (snd mid)) < length (fst (snd st))" by (simp add: advanced_def)
    from less.hyps[OF this 2(3)] obtain w where
      w: "fst (snd mid) = w @ fst (snd st')" "list_all P w" "fst st' = fst mid + length w"
         "snd (snd st') = snd (snd mid)" by blast
    with x show ?thesis by (intro exI[of _ "x # w"]) simp
  qed
qed

lemma run_Plus_Cls:
  assumes "st' \<in> set (run (Plus (Cls P)) st)"
  shows "\<exists>w. w \<noteq> [] \<and> fst (snd st) = w @ fst (snd st') \<and> list_all P w \<and>
           fst st' = fst st + length w \<and> snd (snd st') = snd (snd st)"
proof -
  from assms obtain mid where mid: "mid \<in> set (run (Cls P) st)" "st' \<in> set (run (Star (Cls P)) mid)"
    unfolding Plus_def run_Seq_iff by blast
  from mid(1) obtain x xs where x: "fst (snd st) = x # xs" "P x" "mid = (Suc (fst st), xs, snd (snd st))"
    unfolding run_Cls_elem by blast
  from run_Star_Cls[OF mid(2)] obtain w where
    w: "fst (snd mid) = w @ fst (snd st')" "list_all P w" "fst st' = fst mid + length w"
       "snd (snd st') = snd (snd mid)" by blast
  with x show ?thesis by (intro exI[of _ "x # w"]) simp
qed

lemma digits_no_dot: "list_all is_digit w \<Longrightarrow> count_char w CHR ''.'' = 0"
  by (induction w) (auto simp: count_char_def is_digit_def between_def code_def)

lemma run_sub_number:
  assumes "st' \<in> set (run (Grp 2 (Seq (Lit CHR ''.'') (Plus digit))) st)"
  shows "\<exists>t. one_dot t \<and> snd (snd st') = (2, t) # snd (snd st) \<and>
           length (fst (snd st')) < length (fst (snd st))"
proof -
  from assms obtain e where e: "e \<in> set (run (Seq (Lit CHR ''.'') (Plus digit)) st)"
    and st': "st' = capture 2 st e" by auto
  from e obtain mid where mid: "mid \<in> set (run (Lit CHR ''.'') st)" "e \<in> set (run (Plus digit) mid)"
    unfolding run_Seq_iff by blast
  from mid(1) obtain xs where xs: "fst (snd st) = CHR ''.'' # xs" "mid = (Suc (fst st), xs, snd (snd st))"
    unfolding run_Lit_elem by blast
  from run_Plus_Cls[OF mid(2)[unfolded digit_def]] obtain w where
    w: "w \<noteq> []" "fst (snd mid) = w @ fst (snd e)" "list_all is_digit w" "fst e = fst mid + length w"
       "snd (snd e) = snd (snd mid)" by blast
  have "take (fst e - fst st) (fst (snd st)) = CHR ''.'' # w"
    using xs w by simp
  moreover have "one_dot (CHR ''.'' # w)"
    using digits_no_dot[OF w(3)] by (simp add: one_dot_def count_char_def)
  ultimately show ?thesis
    using xs w st' by (intro exI[of _ "CHR ''.'' # w"]) (simp add: capture_def)
qed

lemma run_sub_numbers:
  "st' \<in> set (run (Star (Grp 2 (Seq (Lit CHR ''.'') (Plus digit)))) st) \<Longrightarrow>
     \<exists>new. snd (snd st') = new @ snd (snd st) \<and> (\<forall>e \<in> set new. fst e = 2 \<and> one_dot (snd e))"
proof (induction "length (fst (snd st))" arbitrary: st rule: less_induct)
  case less
  let ?X = "Grp 2 (Seq (Lit CHR ''.'') (Plus digit))"
  from run_Star_cases[OF less.prems] consider "st' = st"
    | mid where "mid \<in> set (run ?X st)" "advanced st mid" "st' \<in> set (run (Star ?X) mid)"
    by blast
  then show ?case
  proof cases
    case 1
    then show ?thesis by (intro exI[of _ "[]"]) simp
  next
    case 2
    from run_sub_number[OF 2(1)] obtain t where
      t: "one_dot t" "snd (snd mid) = (2, t) # snd (snd st)"
         "length (fst (snd mid)) < length (fst (snd st))" by blast
    from less.hyps[OF t(3) 2(3)] obtain new where
      new: "snd (snd st') = new @ snd (snd mid)" "\<forall>e \<in> set new. fst e = 2 \<and> one_dot (snd e)"
      by blast
    with t show ?thesis by (intro exI[of _ "new @ [(2, t)]"]) simp
  qed
qed


lemma nogrp_groups:
  "nogrp r \<Longrightarrow> st' \<in> set (run r st) \<Longrightarrow> snd (snd st') = snd (snd st)"
proof (induction r st arbitrary: st' rule: run.induct)
  case (1 c st)
  then show ?case by (cases "fst (snd st)") (auto split: if_splits)
next
  case (2 P st)
  then show ?case by (cases "fst (snd st)") (auto split: if_splits)
next
  case (3 st)
  then show ?case by (cases "fst (snd st)") (auto split: if_splits)
next
  case (4 st)
  then show ?case by (auto split: if_splits)
next
  case (5 st)
  then show ?case by (auto split: if_splits)
next
  case (6 st)
  then show ?case by simp
next
  case (7 a b st)
  from 7(3) have na: "nogrp a" and nb: "nogrp b" by simp_all
  from 7(4) obtain mid where mid: "mid \<in> set (run a st)" "st' \<in> set (run b mid)"
    unfolding run_Seq_iff by blast
  from 7(1)[OF na mid(1)] 7(2)[OF mid(1) nb mid(2)] show ?case by simp
next
  case (8 a b st)
  from 8(3) have na: "nogrp a" and nb: "nogrp b" by simp_all
  from 8(4) have "st' \<in> set (run a st) \<or> st' \<in> set (run b st)" by simp
  with 8(1)[OF na] 8(2)[OF nb] show ?case by blast
next
  case (9 a st)
  from 9(3) have na: "nogrp a" by simp
  from run_Star_cases[OF 9(4)] consider "st' = st"
    | mid where "mid \<in> set (run a st)" "advanced st mid" "st' \<in> set (run (Star a) mid)"
    by blast
  then show ?case
  proof cases
    case 1
    then show ?thesis by simp
  next
    case 2
    from 2(1,2) have "mid \<in> set (filter (advanced st) (run a st))" by simp
    from 9(2)[OF this 9(3) 2(3)] 9(1)[OF na 2(1)] show ?thesis by simp
  qed
next
  case (10 n a st)
  then show ?case by simp
qed

lemma run_Grp_groups:
  assumes "st' \<in> set (run (Grp n a) st)" and "nogrp a"
  shows "\<exists>w. snd (snd st') = (n, w) # snd (snd st)"
proof -
  from assms(1) obtain e where e: "e \<in> set (run a st)" "st' = capture n st e" by auto
  from nogrp_groups[OF assms(2) e(1)] e(2) show ?thesis by (simp add: capture_def)
qed

lemma numbered_match_groups:
  assumes "re_match numbered_re s = Some m"
  shows "\<exists>w1 w3 new. m = (3, w3) # new @ [(1, w1)] \<and> (\<forall>e \<in> set new. fst e = 2 \<and> one_dot (snd e))"
proof -
  let ?X = "Grp 2 (Seq (Lit CHR ''.'') (Plus digit))"
  let ?r5 = "Seq (Grp 3 (Plus Dot)) Eol"
  let ?r4 = "Seq (Plus space) ?r5"
  let ?r3 = "Seq (Opt (Lit CHR ''.'')) ?r4"
  let ?r2 = "Seq (Star ?X) ?r3"
  let ?r1 = "Seq (Grp 1 (Plus digit)) ?r2"
  have re: "numbered_re = Seq Bol ?r1" by (simp add: numbered_re_def)
  from assms obtain st where st: "st \<in> set (run (Seq Bol ?r1) (0, s, []))" "m = snd (snd st)"
    unfolding re_match_def re by (auto split: list.splits simp del: run.simps)
  from st(1) obtain s0 s1 s2 s3 s4 s5 where
    s0: "s0 \<in> set (run Bol (0, s, []))" and
    s1: "s1 \<in> set (run (Grp 1 (Plus digit)) s0)" and
    s2: "s2 \<in> set (run (Star ?X) s1)" and
    s3: "s3 \<in> set (run (Opt (Lit CHR ''.'')) s2)" and
    s4: "s4 \<in> set (run (Plus space) s3)" and
    s5: "s5 \<in> set (run (Grp 3 (Plus Dot)) s4)" and
    s6: "st \<in> set (run Eol s5)"
    unfolding run_Seq_iff by blast
  have g0: "snd (snd s0) = []" using nogrp_groups[OF _ s0] by simp
  obtain w1 where g1: "snd (snd s1) = [(1, w1)]"
    using run_Grp_groups[OF s1] g0 by (auto simp: Plus_def digit_def)
  obtain new where g2: "snd (snd s2) = new @ [(1, w1)]"
      and new: "\<forall>e \<in> set new. fst e = 2 \<and> one_dot (snd e)"
    using run_sub_numbers[OF s2] g1 by auto
  have g3: "snd (snd s3) = snd (snd s2)" using nogrp_groups[OF _ s3] by (simp add: Opt_def)
  have g4: "snd (snd s4) = snd (snd s3)" using nogrp_groups[OF _ s4] by (simp add: Plus_def space_def)
  obtain w3 where g5: "snd (snd s5) = (3, w3) # snd (snd s4)"
    using run_Grp_groups[OF s5] by (auto simp: Plus_def)
  have g6: "snd (snd st) = snd (snd s5)" using nogrp_groups[OF _ s6] by simp
  from st(2) g2 g3 g4 g5 g6 new show ?thesis by auto
qed

lemma group_2_of_numbered:
  assumes "m = (3, w3) # new @ [(1, w1)]" and "\<forall>e \<in> set new. fst e = 2 \<and> one_dot (snd e)"
  shows "group m 2 = None \<or> (\<exists>t. group m 2 = Some t \<and> one_dot t)"
proof (cases new)
  case Nil
  with assms(1) show ?thesis by (simp add: group_def)
next
  case (Cons e rest)
  with assms(2) have "fst e = 2" "one_dot (snd e)" by simp_all
  with Cons assms(1) show ?thesis by (cases e) (simp add: group_def)
qed

lemma numbered_level_le_2:
  assumes "re_match numbered_re s = Some m"
  shows "numbered_level (group m 2) = 1 \<or> numbered_level (group m 2) = 2"
proof -
  from numbered_match_groups[OF assms] obtain w1 w3 new where
    "m = (3, w3) # new @ [(1, w1)]" "\<forall>e \<in> set new. fst e = 2 \<and> one_dot (snd e)" by blast
  from group_2_of_numbered[OF this] show ?thesis
    by (auto simp: numbered_level_def one_dot_def)
qed

text \<open>
  The groups that the section patterns read with \<open>group_str\<close> take part in every match, so
  \<open>group_str\<close> never meets \<open>None\<close> there.
\<close>

lemma run_Seq_tail:
  "st' \<in> set (run (Seq a r) st) \<Longrightarrow> \<exists>mid. st' \<in> set (run r mid)"
  unfolding run_Seq_iff by blast

lemma run_last_group:
  assumes "st' \<in> set (run (Seq (Grp n b) Eol) st)" and "nogrp b"
  shows "group (snd (snd st')) n \<noteq> None"
proof -
  from assms(1) obtain mid where mid: "mid \<in> set (run (Grp n b) st)" "st' \<in> set (run Eol mid)"
    unfolding run_Seq_iff by blast
  from run_Grp_groups[OF mid(1) assms(2)] nogrp_groups[OF _ mid(2)]
  show ?thesis by (auto simp: group_def)
qed

lemma re_match_elem:
  assumes "re_match r s = Some m"
  shows "\<exists>st \<in> set (run r (0, s, [])). m = snd (snd st)"
  using assms unfolding re_match_def by (auto split: list.splits simp del: run.simps)

lemma section_content_present:
  "re_match numbered_re s = Some m \<Longrightarrow> group m 3 \<noteq> None"
  "re_match letter_re s = Some m \<Longrightarrow> group m 3 \<noteq> None"
  "re_match roman_re s = Some m \<Longrightarrow> group m 2 \<noteq> None"
proof -
  have dots: "nogrp (Plus Dot)" by (simp add: Plus_def)
  {
    assume "re_match numbered_re s = Some m"
    from re_match_elem[OF this] obtain st where
      st: "st \<in> set (run numbered_re (0, s, []))" "m = snd (snd st)" by blast
    from st(1) have "\<exists>mid. st \<in> set (run (Seq (Grp 3 (Plus Dot)) Eol) mid)"
      unfolding numbered_re_def Seqs.simps by (blast dest: run_Seq_tail)
    with st(2) dots show "group m 3 \<noteq> None" by (blast dest: run_last_group)
  }
  {
    assume "re_match letter_re s = Some m"
    from re_match_elem[OF this] obtain st where
      st: "st \<in> set (run letter_re (0, s, []))" "m = snd (snd st)" by blast
    from st(1) have "\<exists>mid. st \<in> set (run (Seq (Grp 3 (Plus Dot)) Eol) mid)"
      unfolding letter_re_def Seqs.simps by (blast dest: run_Seq_tail)
    with st(2) dots show "group m 3 \<noteq> None" by (blast dest: run_last_group)
  }
  {
    assume "re_match roman_re s = Some m"
    from re_match_elem[OF this] obtain st where
      st: "st \<in> set (run roman_re (0, s, []))" "m = snd (snd st)" by blast
    from st(1) have "\<exists>mid. st \<in> set (run (Seq (Grp 2 (Plus Dot)) Eol) mid)"
      unfolding roman_re_def Seqs.simps by (blast dest: run_Seq_tail)
    with st(2) dots show "group m 2 \<noteq> None" by (blast dest: run_last_group)
  }
qed

section \<open>The pattern detector\<close>

text \<open>
  On a number of three parts the numbered pattern matches with group 2 holding the last
  repetition only, \<open>.3\<close>, not the whole sub-numbering \<open>.2.3\<close>.
\<close>

lemma three_part_match:
  "re_match numbered_re ''1.2.3 Background and Scope'' =
     Some [(3, ''Background and Scope''), (2, ''.3''), (2, ''.2''), (1, ''1'')]"
  by (simp add: ev)

text \<open>
  Claim C1. The numbered-section rule is to give the level \<open>min(number_of_dots + 1, 3)\<close>, the
  dots being all those of the sub-numbering, so that \<open>1.2.3 Background and Scope\<close> has
  level 3. The source counts the dots of \<open>group(2)\<close>, the last repetition, of which there is
  always one: the text matches with confidence 90, and its level is 2.
\<close>

theorem three_part_number_level:
  "detect_heading_patterns ''1.2.3 Background and Scope'' = (True, 2, 90)"
  by (simp add: ev)

text \<open>
  This holds for every text: the numbered-section rule, the only one with confidence 90,
  gives level 1 or 2 and never 3.
\<close>

lemma numbered_level_never_3:
  assumes "detect_heading_patterns text = (True, l, 90)"
  shows "l = 1 \<or> l = 2"
proof (cases "re_match numbered_re (strip text)")
  case None
  with assms show ?thesis
    by (simp add: detect_heading_patterns_def Let_def split: if_splits)
next
  case (Some m)
  from numbered_level_le_2[OF Some] Some assms show ?thesis
    by (auto simp: detect_heading_patterns_def Let_def split: if_splits)
qed

text \<open>
  Claim C8. A text that meets the numbered-section rule (the pattern matches, the content
  after the number has more than 5 characters and is not only digits) and also the
  all-caps rule (upper case, 10 to 60 characters, not capitals followed by a number) gets
  the result of the numbered-section rule, with confidence 90 and not 50.
\<close>

theorem numbered_rule_first:
  assumes "re_match numbered_re (strip text) = Some m"
    and "length (strip (group_str m 3)) > 5"
    and "re_match digits_re (strip (group_str m 3)) = None"
    and "isupper (strip text)"
    and "10 \<le> length (strip text)" and "length (strip text) \<le> 60"
    and "re_match caps_number_re (strip text) = None"
  shows "detect_heading_patterns text = (True, numbered_level (group m 2), 90)"
  using assms(1-3) by (simp add: detect_heading_patterns_def Let_def)

lemma caps_text_facts:
  "strip ''1.2 SYSTEM OVERVIEW'' = ''1.2 SYSTEM OVERVIEW''"
  "re_match numbered_re ''1.2 SYSTEM OVERVIEW'' = Some [(3, ''SYSTEM OVERVIEW''), (2, ''.2''), (1, ''1'')]"
  "strip (group_str [(3, ''SYSTEM OVERVIEW''), (2, ''.2''), (1, ''1'')] 3) = ''SYSTEM OVERVIEW''"
  "re_match digits_re ''SYSTEM OVERVIEW'' = None"
  "isupper ''1.2 SYSTEM OVERVIEW''"
  "re_match caps_number_re ''1.2 SYSTEM OVERVIEW'' = None"
  "numbered_level (group [(3, ''SYSTEM OVERVIEW''), (2, ''.2''), (1, ''1'')] 2) = 2"
  by (simp_all add: ev)

theorem numbered_rule_first_witness:
  "re_match numbered_re (strip ''1.2 SYSTEM OVERVIEW'') = Some [(3, ''SYSTEM OVERVIEW''), (2, ''.2''), (1, ''1'')]
   \<and> isupper (strip ''1.2 SYSTEM OVERVIEW'')
   \<and> re_match caps_number_re (strip ''1.2 SYSTEM OVERVIEW'') = None
   \<and> detect_heading_patterns ''1.2 SYSTEM OVERVIEW'' = (True, 2, 90)"
  using numbered_rule_first[of "''1.2 SYSTEM OVERVIEW''" "[(3, ''SYSTEM OVERVIEW''), (2, ''.2''), (1, ''1'')]"]
  by (simp add: caps_text_facts del: One_nat_def)

text \<open>Without its number the same heading is scored by the all-caps rule.\<close>

lemma caps_only: "detect_heading_patterns ''SYSTEM OVERVIEW'' = (True, 1, 50)"
  by (simp add: ev)

section \<open>The exclusion filter\<close>

text \<open>
  Claim C7. A text of 3 to 150 characters is to be excluded whenever a legal or a URL
  marker occurs anywhere in it. The source applies \<open>re.match\<close>, which tries a pattern at the
  start of the text only: a text with \<open>www.\<close> and \<open>.com\<close>, or with \<open>copyright\<close>, after its
  first word is not excluded.
\<close>

theorem marker_inside_text_not_excluded:
  "is_excluded_content ''Visit www.example.com'' p = False \<and>
   is_excluded_content ''All material is copyright of Foo'' p = False"
  by (simp add: ev)

text \<open>The same marker at the start of the text excludes it.\<close>

lemma marker_at_start_excluded:
  "is_excluded_content ''www.example.com'' p = True"
  by (simp add: ev)

section \<open>The scoring scenarios\<close>

lemma overview_excluded: "is_excluded_content ''1.2 System Overview'' p = False" by (simp add: ev)
lemma overview_pattern: "detect_heading_patterns ''1.2 System Overview'' = (True, 2, 90)" by (simp add: ev)
lemma overview_content:
  "content_delta al ''1.2 System Overview'' True =
     (if occurrences al ''1.2 System Overview'' \<le> 2 then 20 else 0)" by (simp add: ev)

text \<open>
  Claim C9, amended. With body font size 10, a bold span \<open>1.2 System Overview\<close> of font
  size 14 matches the numbered pattern (level 2, 90), gains 30 for the size ratio 1.4 and
  25 for bold, which raises the level to 1: 145. To this the source adds 15 when the font
  name is not the body font name, 10 when the span starts left of x = 100, and 20 for the
  structure word \<open>overview\<close> unless the text occurs more than twice in the document. The span
  is a heading of level H1 in every case.
\<close>

theorem overview_scenario_score:
  assumes "btext b = ''1.2 System Overview''" and "font_size b = 14" and "is_bold b"
    and "body_font_size fa = 10"
  shows "detect_heading_patterns (btext b) = (True, 2, 90) \<and>
         calculate_heading_likelihood al b fa =
           Inr (True, Some ''H1'',
                145 + (if font_name b \<noteq> body_font_name fa then 15 else 0)
                    + (if x_position b < 100 then 10 else 0)
                    + (if occurrences al ''1.2 System Overview'' \<le> 2 then 20 else 0))"
proof -
  have pattern: "pattern_step ''1.2 System Overview'' (0, 3) = (90, 2)"
    by (simp add: pattern_step_def overview_pattern)
  have size: "font_size_step (double (7 / 5)) (90, 2) = (120, 2)"
    by (simp add: font_size_step_def fl)
  have bold: "bold_step True (120, 2) = (145, 1)"
    by (simp add: bold_step_def)
  have rest: "position_step x (family_step n n' (145, 1)) =
      (145 + (if n \<noteq> n' then 15 else 0) + (if x < 100 then 10 else 0), 1)" for x n n'
    by (simp add: position_step_def family_step_def)
  have "calculate_heading_likelihood al b fa =
      Inr (True, Some ''H1'',
           145 + (if font_name b \<noteq> body_font_name fa then 15 else 0)
               + (if x_position b < 100 then 10 else 0)
               + (if occurrences al ''1.2 System Overview'' \<le> 2 then 20 else 0))"
    using assms
    by (simp add: calculate_heading_likelihood_def overview_excluded overview_pattern
        overview_content pattern size bold rest level_map_def Let_def del: One_nat_def)
  then show ?thesis by (simp add: assms(1) overview_pattern)
qed

text \<open>
  The claim as stated gives exactly 145. A span in the body font, right of x = 100, whose
  text occurs once in the document scores 165.
\<close>

theorem overview_scenario_counterexample:
  "btext overview_span = ''1.2 System Overview'' \<and> font_size overview_span = 14 \<and>
   is_bold overview_span \<and> body_font_size scenario_fonts = 10 \<and>
   calculate_heading_likelihood [overview_span] overview_span scenario_fonts =
     Inr (True, Some ''H1'', 165)"
  by (simp add: score_defs fl overview_excluded overview_pattern overview_content overview_span_def
      scenario_fonts_def line_block_sel occurrences_def)

theorem overview_scenario_score_witness:
  "btext overview_span = ''1.2 System Overview'' \<and> font_size overview_span = 14 \<and>
   is_bold overview_span \<and> body_font_size scenario_fonts = 10 \<and>
   calculate_heading_likelihood [overview_span, overview_span, overview_span] overview_span scenario_fonts =
     Inr (True, Some ''H1'', 145)"
  using overview_scenario_score[of overview_span scenario_fonts "[overview_span, overview_span, overview_span]"]
  by (simp add: overview_span_def scenario_fonts_def line_block_sel occurrences_def)

lemma date_excluded: "is_excluded_content ''15 March 2023'' p = False" by (simp add: ev)
lemma date_pattern: "detect_heading_patterns ''15 March 2023'' = (True, 1, 90)" by (simp add: ev)
lemma date_content: "content_delta al ''15 March 2023'' True = - 80" by (simp add: ev)

text \<open>
  Claim C6, amended. The text \<open>15 March 2023\<close> matches the numbered pattern (level 1, 90) and
  the month-date penalty takes 80 of it. So for every font size, boldness, font name and
  position the total of a span with this text is 10, plus 60 if the size ratio is at least
  1.5 or 30 if it is at least 1.2, plus 25 if bold, 15 if not in the body font and 10 if
  left of x = 100, and its level is H1. The span is rejected exactly when this total is
  below 80: always when the ratio is below 1.2, where the total is at most 60. The ratio is
  the rounded quotient of the two sizes and the thresholds are the doubles nearest to 1.5
  and 1.2. With a body font size of zero the division raises.
\<close>

theorem date_span_score:
  assumes "btext b = ''15 March 2023''"
  shows "calculate_heading_likelihood al b fa =
     (if body_font_size fa = 0 then Inl ZeroDivisionError
      else let size_ratio = double (font_size b / body_font_size fa);
               total = 10 + (if double 1.5 \<le> size_ratio then 60
                             else if double 1.2 \<le> size_ratio then 30 else 0)
                          + (if is_bold b then 25 else 0)
                          + (if font_name b \<noteq> body_font_name fa then 15 else 0)
                          + (if x_position b < 100 then 10 else 0)
           in Inr (80 \<le> total, Some ''H1'', total))"
proof -
  have pattern: "pattern_step ''15 March 2023'' (0, 3) = (90, 1)"
    by (simp add: pattern_step_def date_pattern)
  have size: "font_size_step r (90, 1) =
      (90 + (if double 1.5 \<le> r then 60 else if double 1.2 \<le> r then 30 else 0), 1)" for r
    by (simp add: font_size_step_def)
  have bold: "bold_step bb (c, 1) = (c + (if bb then 25 else 0), 1)" for bb c
    by (simp add: bold_step_def)
  have family: "family_step n n' (c, l) = (c + (if n \<noteq> n' then 15 else 0), l)" for n n' c l
    by (simp add: family_step_def)
  have position: "position_step x (c, l) = (c + (if x < 100 then 10 else 0), l)" for x c l
    by (simp add: position_step_def)
  show ?thesis
  proof (cases "body_font_size fa = 0")
    case True
    with assms show ?thesis
      by (simp add: calculate_heading_likelihood_def date_excluded)
  next
    case False
    with assms show ?thesis
      by (simp add: calculate_heading_likelihood_def pattern size bold family position
          level_map_def Let_def date_excluded date_pattern date_content
          del: One_nat_def split del: if_split)
  qed
qed

text \<open>
  The claim as stated rejects the span at any font size. At twice the body size and left
  of x = 100 it scores 90 + 60 + 10 - 80 = 80 and is accepted.
\<close>

theorem date_span_counterexample:
  "btext date_span = ''15 March 2023'' \<and>
   calculate_heading_likelihood [date_span] date_span scenario_fonts = Inr (True, Some ''H1'', 80)"
  by (simp add: score_defs fl date_excluded date_pattern date_content date_span_def
      scenario_fonts_def line_block_sel)

text \<open>
  At the body size, bold, in another font and left of x = 100 the span scores 60 and is
  rejected. At size 13.2 on a body of size 11 the exact quotient is below 1.2, the rounded
  one is not: the same span scores 90 and is accepted.
\<close>

theorem date_span_score_witness:
  "btext small_date_span = ''15 March 2023'' \<and>
   calculate_heading_likelihood [small_date_span] small_date_span scenario_fonts =
     Inr (False, Some ''H1'', 60) \<and>
   btext rounded_date_span = ''15 March 2023'' \<and>
   font_size rounded_date_span / body_font_size eleven_fonts < 1.2 \<and>
   calculate_heading_likelihood [rounded_date_span] rounded_date_span eleven_fonts =
     Inr (True, Some ''H1'', 90)"
  using date_span_score[of small_date_span "[small_date_span]" scenario_fonts]
    date_span_score[of rounded_date_span "[rounded_date_span]" eleven_fonts]
  by (simp add: small_date_span_def rounded_date_span_def scenario_fonts_def eleven_fonts_def
      line_block_sel fl)

section \<open>The title\<close>

text \<open>
  Claim C10. For a list of blocks that is not empty and has no block on page 1,
  \<open>extract_title\<close> returns \<open>Untitled Document\<close>, which is neither the title of an empty
  document nor the title \<open>Document\<close> of a first page without a candidate.
\<close>

theorem untitled_without_first_page:
  assumes "text_blocks \<noteq> []" and "list_all (\<lambda>b. page b \<noteq> 1) text_blocks"
  shows "extract_title text_blocks = ''Untitled Document'' \<and>
         extract_title text_blocks \<noteq> ''Empty Document'' \<and>
         extract_title text_blocks \<noteq> ''Document''"
proof -
  have "filter (\<lambda>b. page b = 1) text_blocks = []"
    using assms(2) by (induction text_blocks) auto
  then show ?thesis by (simp add: extract_title_def)
qed

lemma late_text_blocks:
  "extract_text_blocks late_doc = Inr [line_block 2 ''Body text'' 10 False ''Times'' 72 100]"
  by (simp add: blocks_defs late_doc_def)

theorem untitled_without_first_page_witness:
  "extract_text_blocks late_doc = Inr [line_block 2 ''Body text'' 10 False ''Times'' 72 100] \<and>
   [line_block 2 ''Body text'' 10 False ''Times'' 72 100] \<noteq> [] \<and>
   list_all (\<lambda>b. page b \<noteq> 1) [line_block 2 ''Body text'' 10 False ''Times'' 72 100] \<and>
   extract_title [line_block 2 ''Body text'' 10 False ''Times'' 72 100] = ''Untitled Document''"
  using untitled_without_first_page[of "[line_block 2 ''Body text'' 10 False ''Times'' 72 100]"]
  by (simp add: late_text_blocks line_block_sel)

section \<open>The outline\<close>

lemma strip_idem: "strip (strip s) = strip s"
proof -
  define d where "d = dropWhile is_space s"
  define u where "u = dropWhile is_space (rev d)"
  have t: "strip s = rev u" by (simp add: strip_def d_def u_def)
  have u_idem: "dropWhile is_space u = u" by (simp add: u_def)
  have front: "dropWhile is_space (rev u) = rev u"
  proof (cases "u = []")
    case True then show ?thesis by simp
  next
    case False
    have "rev d = takeWhile is_space (rev d) @ u" by (simp add: u_def)
    then have "rev (rev d) = rev (takeWhile is_space (rev d) @ u)" by simp
    then obtain w where dw: "d = rev u @ w" by simp
    with False have hd: "hd (rev u) = hd d" and dne: "d \<noteq> []" by simp_all
    from dne have "\<not> is_space (hd d)" unfolding d_def by (rule hd_dropWhile)
    with hd False show ?thesis by (cases "rev u") auto
  qed
  show ?thesis unfolding t by (simp add: strip_def front u_idem)
qed

lemma distinct_map_sort_key: "distinct (map f (sort_key k xs)) = distinct (map f xs)"
  by (simp add: distinct_map)

lemma accepted_key: "accepted_heading al fa b = Some h \<Longrightarrow> entry_key h = block_key b"
  by (auto simp: accepted_heading_def entry_key_def block_key_def strip_idem
      split: if_splits sum.splits prod.splits bool.splits)

lemma accepted_text: "accepted_heading al fa b = Some h \<Longrightarrow> (lower (h_text h), h_page h) = block_key b"
  by (auto simp: accepted_heading_def entry_key_def block_key_def
      split: if_splits sum.splits prod.splits bool.splits)

lemma inv_skip:
  assumes inv: "heading_inv al fa pre hs seen"
    and none: "accepted_heading al fa b = None \<or> block_key b \<in> seen"
  shows "heading_inv al fa (pre @ [b]) hs seen"
proof -
  have "\<exists>i < length (pre @ [b]). accepted_heading al fa ((pre @ [b]) ! i) = Some h \<and>
        (\<forall>j < i. block_key ((pre @ [b]) ! j) = block_key ((pre @ [b]) ! i) \<longrightarrow> accepted_heading al fa ((pre @ [b]) ! j) = None)"
    if "h \<in> set hs" for h
  proof -
    from inv that obtain i where i: "i < length pre" "accepted_heading al fa (pre ! i) = Some h"
      "\<forall>j < i. block_key (pre ! j) = block_key (pre ! i) \<longrightarrow> accepted_heading al fa (pre ! j) = None"
      unfolding heading_inv_def by blast
    then show ?thesis
      by (intro exI[of _ i]) (auto simp: nth_append)
  qed
  moreover have "\<forall>b' \<in> set (pre @ [b]). accepted_heading al fa b' \<noteq> None \<longrightarrow> block_key b' \<in> seen"
    using inv none unfolding heading_inv_def by auto
  ultimately show ?thesis using inv unfolding heading_inv_def by blast
qed

lemma inv_add:
  assumes inv: "heading_inv al fa pre hs seen"
    and acc: "accepted_heading al fa b = Some h"
    and new: "block_key b \<notin> seen"
  shows "heading_inv al fa (pre @ [b]) (hs @ [h]) (insert (block_key b) seen)"
proof -
  have k: "entry_key h = block_key b" using acc by (rule accepted_key)
  have seen: "seen = entry_key ` set hs" and dist: "distinct (map entry_key hs)"
    using inv unfolding heading_inv_def by auto
  have 1: "insert (block_key b) seen = entry_key ` set (hs @ [h])"
    using seen k by auto
  have 2: "distinct (map entry_key (hs @ [h]))"
    using dist seen new k by auto
  have 3: "\<exists>i < length (pre @ [b]). accepted_heading al fa ((pre @ [b]) ! i) = Some h' \<and>
        (\<forall>j < i. block_key ((pre @ [b]) ! j) = block_key ((pre @ [b]) ! i) \<longrightarrow> accepted_heading al fa ((pre @ [b]) ! j) = None)"
    if "h' \<in> set (hs @ [h])" for h'
  proof (cases "h' \<in> set hs")
    case True
    with inv obtain i where i: "i < length pre" "accepted_heading al fa (pre ! i) = Some h'"
      "\<forall>j < i. block_key (pre ! j) = block_key (pre ! i) \<longrightarrow> accepted_heading al fa (pre ! j) = None"
      unfolding heading_inv_def by blast
    then show ?thesis
      by (intro exI[of _ i]) (auto simp: nth_append)
  next
    case False
    with that have h': "h' = h" by simp
    have "accepted_heading al fa (pre ! j) = None"
      if "j < length pre" "block_key (pre ! j) = block_key b" for j
    proof (rule ccontr)
      assume "accepted_heading al fa (pre ! j) \<noteq> None"
      moreover have "pre ! j \<in> set pre" using that by simp
      ultimately have "block_key (pre ! j) \<in> seen"
        using inv unfolding heading_inv_def by blast
      with that new show False by simp
    qed
    then show ?thesis
      unfolding h' using acc by (intro exI[of _ "length pre"]) (auto simp: nth_append)
  qed
  have 4: "\<forall>b' \<in> set (pre @ [b]). accepted_heading al fa b' \<noteq> None \<longrightarrow> block_key b' \<in> insert (block_key b) seen"
    using inv unfolding heading_inv_def by auto
  show ?thesis unfolding heading_inv_def using 1 2 3 4 by blast
qed

lemma collect_headings_inv:
  assumes "collect_headings al fa rest hs seen = Inr out"
    and "heading_inv al fa pre hs seen"
  shows "heading_inv al fa (pre @ rest) out (entry_key ` set out)"
  using assms
proof (induction rest arbitrary: pre hs seen)
  case Nil
  then show ?case by (auto simp: heading_inv_def)
next
  case (Cons b rest)
  let ?k = "(lower (strip (btext b)), page b)"
  have kb: "?k = block_key b" by (simp add: block_key_def)
  show ?case
  proof (cases "strip (btext b) = [] \<or> ?k \<in> seen")
    case True
    then have "accepted_heading al fa b = None \<or> block_key b \<in> seen"
      by (auto simp: accepted_heading_def kb)
    with Cons.prems(2) have "heading_inv al fa (pre @ [b]) hs seen" by (rule inv_skip)
    moreover from True Cons.prems(1) have "collect_headings al fa rest hs seen = Inr out"
      by (auto simp: Let_def)
    ultimately show ?thesis using Cons.IH[of hs seen "pre @ [b]"] by simp
  next
    case False
    show ?thesis
    proof (cases "calculate_heading_likelihood al b fa")
      case (Inl e)
      with False Cons.prems(1) show ?thesis by (simp add: Let_def)
    next
      case (Inr res)
      obtain ok lvl c where res: "res = (ok, lvl, c)" by (cases res) auto
      show ?thesis
      proof (cases ok)
        case True
        let ?h = "\<lparr>h_text = strip (btext b), h_page = page b, h_level = lvl,
                     h_confidence = c, h_font_size = font_size b\<rparr>"
        have acc: "accepted_heading al fa b = Some ?h"
          using False Inr res True by (simp add: accepted_heading_def)
        from False have new: "block_key b \<notin> seen" by (simp add: kb)
        have "heading_inv al fa (pre @ [b]) (hs @ [?h]) (insert (block_key b) seen)"
          using Cons.prems(2) acc new by (rule inv_add)
        moreover have "collect_headings al fa rest (hs @ [?h]) (insert (block_key b) seen) = Inr out"
          using False Inr res True Cons.prems(1) by (simp add: Let_def kb)
        ultimately show ?thesis
          using Cons.IH[of "hs @ [?h]" "insert (block_key b) seen" "pre @ [b]"] by simp
      next
        case no: False
        have "accepted_heading al fa b = None"
          using False Inr res no by (simp add: accepted_heading_def)
        with Cons.prems(2) have "heading_inv al fa (pre @ [b]) hs seen" by (simp add: inv_skip)
        moreover have "collect_headings al fa rest hs seen = Inr out"
          using False Inr res no Cons.prems(1) by (simp add: Let_def)
        ultimately show ?thesis using Cons.IH[of hs seen "pre @ [b]"] by simp
      qed
    qed
  qed
qed

lemma heading_inv_init: "heading_inv al fa [] [] {}"
  by (simp add: heading_inv_def)

lemma record_positions_find:
  "record_positions bs m k =
     (case m k of Some y \<Rightarrow> Some y
      | None \<Rightarrow> map_option y_position (find (\<lambda>b. block_key b = k) bs))"
proof (induction bs arbitrary: m)
  case Nil
  then show ?case by (simp split: option.splits)
next
  case (Cons b bs)
  show ?case
    by (cases "m (lower (strip (btext b)), page b)")
       (auto simp: Let_def Cons.IH block_key_def split: option.splits)
qed

lemma sort_key_of_recorded:
  "sort_key_of (record_positions bs Map.empty) h = (h_page h, recorded_y bs (lower (h_text h), h_page h))"
  by (simp add: sort_key_of_def recorded_y_def record_positions_find Let_def split: option.splits)

lemma outline_blocks:
  assumes "extract_outline doc = Inr r"
  shows "\<exists>bs. extract_text_blocks doc = Inr bs"
  using assms by (cases "extract_text_blocks doc") (simp_all add: extract_outline_def)

lemma extract_outline_cases:
  assumes "extract_outline doc = Inr r" and "extract_text_blocks doc = Inr bs"
  shows "(bs = [] \<and> outline r = []) \<or>
         (\<exists>fa hs. analyze_fonts bs = Inr fa \<and>
            collect_headings bs fa bs [] {} = Inr hs \<and>
            outline r = sort_key (sort_key_of (record_positions bs Map.empty)) hs)"
  using assms
  by (auto simp: extract_outline_def Let_def split: if_splits sum.splits)

lemma outline_headings:
  assumes "extract_outline doc = Inr r" and "extract_text_blocks doc = Inr bs" and "bs \<noteq> []"
  shows "\<exists>fa hs. analyze_fonts bs = Inr fa \<and>
           heading_inv bs fa bs hs (entry_key ` set hs) \<and>
           outline r = sort_key (sort_key_of (record_positions bs Map.empty)) hs"
proof -
  from extract_outline_cases[OF assms(1,2)] assms(3)
  obtain fa hs where fa: "analyze_fonts bs = Inr fa"
    and hs: "collect_headings bs fa bs [] {} = Inr hs"
    and out: "outline r = sort_key (sort_key_of (record_positions bs Map.empty)) hs"
    by auto
  from collect_headings_inv[OF hs heading_inv_init]
  have "heading_inv bs fa bs hs (entry_key ` set hs)" by simp
  with fa out show ?thesis by blast
qed

lemma outline_of_no_blocks:
  assumes "extract_outline doc = Inr r" and "extract_text_blocks doc = Inr []"
  shows "outline r = []"
  using assms by (auto simp: extract_outline_def)

text \<open>
  Claim C2. In a result of \<open>extract_outline\<close> no two entries have the same pair of
  lowercased trimmed text and page. Every entry is the one made of the first block, in
  document order, that is accepted among the blocks with its pair, and every accepted
  block has its pair among the entries.
\<close>

theorem outline_dedup:
  assumes "extract_outline doc = Inr r"
  shows "\<exists>bs. extract_text_blocks doc = Inr bs \<and>
         distinct (map entry_key (outline r)) \<and>
         (\<forall>h \<in> set (outline r). \<exists>fa i.
            analyze_fonts bs = Inr fa \<and>
            i < length bs \<and>
            accepted_heading bs fa (bs ! i) = Some h \<and>
            (\<forall>j < i. block_key (bs ! j) = block_key (bs ! i) \<longrightarrow>
               accepted_heading bs fa (bs ! j) = None)) \<and>
         (\<forall>fa. \<forall>b \<in> set bs.
            analyze_fonts bs = Inr fa \<and>
            accepted_heading bs fa b \<noteq> None \<longrightarrow>
            block_key b \<in> entry_key ` set (outline r))"
proof -
  from outline_blocks[OF assms] obtain bs where bs: "extract_text_blocks doc = Inr bs" by blast
  have "distinct (map entry_key (outline r)) \<and>
         (\<forall>h \<in> set (outline r). \<exists>fa i.
            analyze_fonts bs = Inr fa \<and>
            i < length bs \<and>
            accepted_heading bs fa (bs ! i) = Some h \<and>
            (\<forall>j < i. block_key (bs ! j) = block_key (bs ! i) \<longrightarrow>
               accepted_heading bs fa (bs ! j) = None)) \<and>
         (\<forall>fa. \<forall>b \<in> set bs.
            analyze_fonts bs = Inr fa \<and>
            accepted_heading bs fa b \<noteq> None \<longrightarrow>
            block_key b \<in> entry_key ` set (outline r))"
  proof (cases "bs = []")
    case True
    with assms bs have "outline r = []" by (simp add: outline_of_no_blocks)
    with True show ?thesis by simp
  next
    case False
    from outline_headings[OF assms bs False]
    obtain fa hs where fa: "analyze_fonts bs = Inr fa"
      and inv: "heading_inv bs fa bs hs (entry_key ` set hs)"
      and out: "outline r = sort_key (sort_key_of (record_positions bs Map.empty)) hs"
      by blast
    have "distinct (map entry_key hs)" using inv by (simp add: heading_inv_def)
    then have d: "distinct (map entry_key (outline r))"
      by (simp add: out distinct_map_sort_key)
    have s: "set (outline r) = set hs" by (simp add: out)
    have first: "\<exists>i < length bs. accepted_heading bs fa (bs ! i) = Some h \<and>
            (\<forall>j < i. block_key (bs ! j) = block_key (bs ! i) \<longrightarrow> accepted_heading bs fa (bs ! j) = None)"
      if "h \<in> set (outline r)" for h
      using inv that unfolding heading_inv_def s by blast
    have kept: "block_key b \<in> entry_key ` set (outline r)"
      if "b \<in> set bs" "accepted_heading bs fa' b \<noteq> None" "analyze_fonts bs = Inr fa'" for b fa'
    proof -
      from that(3) fa have "fa' = fa" by simp
      with inv that(1,2) show ?thesis unfolding heading_inv_def s by blast
    qed
    from d fa first kept show ?thesis by blast
  qed
  with bs show ?thesis by blast
qed

text \<open>
  Claim C3. In a result of \<open>extract_outline\<close> an earlier entry has a smaller page than a
  later one, or the same page and a recorded y-position that is not larger; so an entry
  on a smaller page comes first. The y-position recorded for an entry is that of the first
  block, accepted or not, with the entry's pair of lowercased text and page.
\<close>

theorem outline_order:
  assumes "extract_outline doc = Inr r"
  shows "\<exists>bs. extract_text_blocks doc = Inr bs \<and>
         (\<forall>i j. i < j \<and> j < length (outline r) \<longrightarrow>
            h_page (outline r ! i) < h_page (outline r ! j) \<or>
            h_page (outline r ! i) = h_page (outline r ! j) \<and>
            recorded_y bs (entry_key (outline r ! i))
              \<le> recorded_y bs (entry_key (outline r ! j))) \<and>
         (\<forall>i j. i < length (outline r) \<and> j < length (outline r) \<and>
            h_page (outline r ! i) < h_page (outline r ! j) \<longrightarrow> i < j) \<and>
         (\<forall>h \<in> set (outline r). \<exists>b.
            find (\<lambda>b. block_key b = entry_key h) bs = Some b \<and>
            recorded_y bs (entry_key h) = y_position b)"
proof -
  from outline_blocks[OF assms] obtain bs where bs: "extract_text_blocks doc = Inr bs" by blast
  have "(\<forall>i j. i < j \<and> j < length (outline r) \<longrightarrow>
            h_page (outline r ! i) < h_page (outline r ! j) \<or>
            h_page (outline r ! i) = h_page (outline r ! j) \<and>
            recorded_y bs (entry_key (outline r ! i))
              \<le> recorded_y bs (entry_key (outline r ! j))) \<and>
         (\<forall>i j. i < length (outline r) \<and> j < length (outline r) \<and>
            h_page (outline r ! i) < h_page (outline r ! j) \<longrightarrow> i < j) \<and>
         (\<forall>h \<in> set (outline r). \<exists>b.
            find (\<lambda>b. block_key b = entry_key h) bs = Some b \<and>
            recorded_y bs (entry_key h) = y_position b)"
  proof (cases "bs = []")
    case True
    with assms bs have "outline r = []" by (simp add: outline_of_no_blocks)
    then show ?thesis by simp
  next
    case False
    let ?bs = "bs"
    let ?f = "sort_key_of (record_positions ?bs Map.empty)"
    let ?g = "\<lambda>h. (h_page h, recorded_y ?bs (entry_key h))"
    from outline_headings[OF assms bs False]
    obtain fa hs where fa: "analyze_fonts ?bs = Inr fa"
      and inv: "heading_inv ?bs fa ?bs hs (entry_key ` set hs)"
      and out: "outline r = sort_key ?f hs"
      by blast
    have s: "set (outline r) = set hs" by (simp add: out)
    have origin: "\<exists>b \<in> set ?bs. accepted_heading ?bs fa b = Some h" if "h \<in> set hs" for h
      using inv that unfolding heading_inv_def by (metis nth_mem)
    have fg: "?f h = ?g h" if "h \<in> set hs" for h
    proof -
      from origin[OF that] obtain b where b: "accepted_heading ?bs fa b = Some h" by blast
      have "(lower (h_text h), h_page h) = entry_key h"
        using accepted_text[OF b] accepted_key[OF b] by simp
      then show ?thesis by (simp add: sort_key_of_recorded)
    qed
    have "sorted (map ?f (outline r))" unfolding out by (rule sorted_sort_key)
    moreover have "map ?f (outline r) = map ?g (outline r)"
      using fg s by (intro map_cong) auto
    ultimately have sorted: "sorted (map ?g (outline r))" by simp
    have le: "?g (outline r ! i) \<le> ?g (outline r ! j)" if "i \<le> j" "j < length (outline r)" for i j
      using sorted that by (simp add: sorted_iff_nth_mono)
    have 1: "h_page (outline r ! i) < h_page (outline r ! j) \<or>
              h_page (outline r ! i) = h_page (outline r ! j) \<and>
              recorded_y ?bs (entry_key (outline r ! i)) \<le> recorded_y ?bs (entry_key (outline r ! j))"
      if "i < j" "j < length (outline r)" for i j
      using le[of i j] that by (auto simp: less_eq_prod_def)
    have 2: "i < j"
      if "i < length (outline r)" "j < length (outline r)"
         "h_page (outline r ! i) < h_page (outline r ! j)" for i j
    proof (rule ccontr)
      assume "\<not> i < j"
      then have "j \<le> i" by simp
      from le[OF this that(1)] that(3) show False by (auto simp: less_eq_prod_def)
    qed
    have 3: "\<exists>b. find (\<lambda>b. block_key b = entry_key h) ?bs = Some b \<and>
              recorded_y ?bs (entry_key h) = y_position b" if "h \<in> set (outline r)" for h
    proof -
      from that s origin obtain b where b: "b \<in> set ?bs" "accepted_heading ?bs fa b = Some h" by blast
      then have "block_key b = entry_key h" by (simp add: accepted_key)
      with b(1) have "find (\<lambda>b. block_key b = entry_key h) ?bs \<noteq> None"
        by (auto simp: find_None_iff)
      then show ?thesis by (auto simp: recorded_y_def)
    qed
    from 1 2 3 show ?thesis by blast
  qed
  with bs show ?thesis by blast
qed

subsection \<open>The example document\<close>

lemma sample_text_blocks: "extract_text_blocks sample_doc = Inr sample_blocks"
  by (simp add: blocks_defs sample_doc_def sample_blocks_def)

lemma sample_analysis: "analyze_fonts sample_blocks = Inr sample_fonts"
  by (simp add: analyze_fonts_def sample_blocks_def sample_fonts_def line_block_def Counter_def
      most_common1_def card_insert_if)

lemma sample_title: "extract_title sample_blocks = ''Body text''"
  by (simp add: extract_title_def sample_blocks_def line_block_def is_title_candidate_def
      is_fallback_title_def is_meaningful_title_def generic_titles_def clean_title_def ev)

lemma design_excluded: "is_excluded_content ''1. Design'' p = False" by (simp add: ev)
lemma design_pattern: "detect_heading_patterns ''1. Design'' = (True, 1, 90)" by (simp add: ev)
lemma design_content: "content_delta al ''1. Design'' True = 0" by (simp add: ev)
lemma method_excluded: "is_excluded_content ''2. Method'' p = False" by (simp add: ev)
lemma method_pattern: "detect_heading_patterns ''2. Method'' = (True, 1, 90)" by (simp add: ev)
lemma method_content: "content_delta al ''2. Method'' True = 0" by (simp add: ev)
lemma body_excluded: "is_excluded_content ''Body text'' p = False" by (simp add: ev)
lemma body_pattern: "detect_heading_patterns ''Body text'' = (False, 0, 0)" by (simp add: ev)
lemma body_content: "content_delta al ''Body text'' False = 0" by (simp add: ev)
lemma notes_excluded: "is_excluded_content ''Design Notes'' p = False" by (simp add: ev)
lemma notes_pattern: "detect_heading_patterns ''Design Notes'' = (False, 0, 0)" by (simp add: ev)
lemma notes_content: "content_delta al ''Design Notes'' False = 0" by (simp add: ev)
lemma caps_notes_excluded: "is_excluded_content ''DESIGN NOTES'' p = False" by (simp add: ev)
lemma caps_notes_pattern: "detect_heading_patterns ''DESIGN NOTES'' = (True, 1, 50)" by (simp add: ev)
lemma caps_notes_content: "content_delta al ''DESIGN NOTES'' True = 0" by (simp add: ev)

lemma design_score:
  "calculate_heading_likelihood al (line_block p ''1. Design'' 14 True ''Arial'' 72 y) sample_fonts =
     Inr (True, Some ''H1'', 170)"
  by (simp add: score_defs fl sample_fonts_def line_block_def design_excluded design_pattern design_content)

lemma method_score:
  "calculate_heading_likelihood al (line_block p ''2. Method'' 14 True ''Arial'' 72 y) sample_fonts =
     Inr (True, Some ''H1'', 170)"
  by (simp add: score_defs fl sample_fonts_def line_block_def method_excluded method_pattern method_content)

lemma body_score:
  "calculate_heading_likelihood al (line_block p ''Body text'' 10 False ''Times'' 72 y) sample_fonts =
     Inr (False, Some ''H3'', 10)"
  by (simp add: score_defs fl sample_fonts_def line_block_def body_excluded body_pattern body_content)

lemma notes_score:
  "calculate_heading_likelihood al (line_block p ''Design Notes'' 10 False ''Times'' 72 y) sample_fonts =
     Inr (False, Some ''H3'', 10)"
  by (simp add: score_defs fl sample_fonts_def line_block_def notes_excluded notes_pattern notes_content)

lemma caps_notes_score:
  "calculate_heading_likelihood al (line_block p ''DESIGN NOTES'' 14 True ''Arial'' 72 y) sample_fonts =
     Inr (True, Some ''H1'', 130)"
  by (simp add: score_defs fl sample_fonts_def line_block_def caps_notes_excluded caps_notes_pattern
      caps_notes_content)

lemma sample_keys:
  "strip ''Body text'' = ''Body text''" "lower ''Body text'' = ''body text''"
  "strip ''1. Design'' = ''1. Design''" "lower ''1. Design'' = ''1. design''"
  "strip ''2. Method'' = ''2. Method''" "lower ''2. Method'' = ''2. method''"
  "strip ''1. DESIGN'' = ''1. DESIGN''" "lower ''1. DESIGN'' = ''1. design''"
  "strip ''Design Notes'' = ''Design Notes''" "lower ''Design Notes'' = ''design notes''"
  "strip ''DESIGN NOTES'' = ''DESIGN NOTES''" "lower ''DESIGN NOTES'' = ''design notes''"
  by (simp_all add: ev)

lemma sample_headings:
  "collect_headings al sample_fonts sample_blocks [] {} =
     Inr [sample_entry ''1. Design'' 1 170, sample_entry ''2. Method'' 1 170,
          sample_entry ''1. Design'' 2 170, sample_entry ''DESIGN NOTES'' 2 130]"
  by (simp add: sample_blocks_def line_block_sel sample_keys design_score method_score body_score
      notes_score caps_notes_score sample_entry_def Let_def del: One_nat_def)

lemma sample_sort_keys:
  "sort_key_of (record_positions sample_blocks Map.empty) (sample_entry ''1. Design'' 1 c) = (1, 300)"
  "sort_key_of (record_positions sample_blocks Map.empty) (sample_entry ''2. Method'' 1 c) = (1, 200)"
  "sort_key_of (record_positions sample_blocks Map.empty) (sample_entry ''1. Design'' 2 c) = (2, 100)"
  "sort_key_of (record_positions sample_blocks Map.empty) (sample_entry ''DESIGN NOTES'' 2 c) = (2, 400)"
  by (simp_all add: sample_blocks_def line_block_sel sample_keys sort_key_of_def sample_entry_def
      Let_def del: One_nat_def)

lemma sample_outline: "extract_outline sample_doc = Inr sample_result"
proof -
  have "sample_blocks \<noteq> []" by (simp add: sample_blocks_def)
  moreover have "length sample_doc = 2" by (simp add: sample_doc_def)
  ultimately show ?thesis
    by (simp add: extract_outline_def sample_text_blocks sample_analysis sample_title sample_headings
        sample_sort_keys sample_result_def less_eq_prod_def Let_def del: One_nat_def)
qed

theorem outline_dedup_witness:
  "extract_outline sample_doc = Inr sample_result \<and>
   distinct (map entry_key (outline sample_result)) \<and>
   map entry_key (outline sample_result) =
     [(''2. method'', 1), (''1. design'', 1), (''1. design'', 2), (''design notes'', 2)]"
  using outline_dedup[OF sample_outline] sample_outline
  by (simp add: sample_result_def sample_entry_def entry_key_def sample_keys)

lemma sample_recorded:
  "recorded_y sample_blocks (''2. method'', 1) = 200"
  "recorded_y sample_blocks (''1. design'', 1) = 300"
  "recorded_y sample_blocks (''1. design'', 2) = 100"
  "recorded_y sample_blocks (''design notes'', 2) = 400"
  by (simp_all add: recorded_y_def block_key_def sample_blocks_def line_block_sel sample_keys
      del: One_nat_def)

text \<open>
  The entry \<open>DESIGN NOTES\<close> comes from the line at y = 50 and is placed by y = 400, the
  position of the earlier line \<open>Design Notes\<close>, which has the same key and was not accepted.
\<close>

theorem outline_order_witness:
  "extract_outline sample_doc = Inr sample_result \<and>
   extract_text_blocks sample_doc = Inr sample_blocks \<and>
   map (\<lambda>h. (h_page h, recorded_y sample_blocks (entry_key h)))
       (outline sample_result) = [(1, 200), (1, 300), (2, 100), (2, 400)]"
  using outline_order[OF sample_outline] sample_outline
  by (simp add: sample_result_def sample_entry_def entry_key_def sample_keys sample_text_blocks
      sample_recorded del: One_nat_def)

section \<open>The entry points\<close>

text \<open>
  Claim C5. When no text block is extracted, \<open>extract_outline\<close> returns the title
  \<open>Empty Document\<close>, no entries, and the number of pages of the document.
\<close>

theorem empty_document_result:
  assumes "extract_text_blocks doc = Inr []"
  shows "extract_outline doc =
           Inr \<lparr>title = ''Empty Document'', outline = [], metadata = Some (length doc)\<rparr>"
  using assms by (simp add: extract_outline_def)

lemma blank_text_blocks: "extract_text_blocks blank_doc = Inr []"
  by (simp add: extract_text_blocks_def blank_doc_def page_text_blocks_def upt_rec and_then_def)

theorem empty_document_result_witness:
  "extract_text_blocks blank_doc = Inr [] \<and>
   extract_outline blank_doc = Inr \<lparr>title = ''Empty Document'', outline = [], metadata = Some 2\<rparr>"
  using empty_document_result[OF blank_text_blocks] blank_text_blocks
  by (simp add: blank_doc_def)

subsection \<open>Exceptions\<close>

text \<open>
  An exception of a loop is an exception of its body, and the loop raises when its body
  does for some element.
\<close>

lemma each_error: "each f xs = Inl e \<Longrightarrow> \<exists>x \<in> set xs. f x = Inl e"
  by (induction xs) (auto simp: and_then_def split: sum.splits)

lemma each_raises: "x \<in> set xs \<Longrightarrow> f x = Inl e \<Longrightarrow> \<exists>e'. each f xs = Inl e'"
  by (induction xs) (auto simp: and_then_def split: sum.splits)

text \<open>The exceptions of \<open>extract_text_blocks\<close> are those of a missing key.\<close>

lemma kept_span_error: "kept_span s = Inl e \<Longrightarrow> e = KeyError ''text''"
  by (auto simp: kept_span_def item_def and_then_def split: option.splits)

lemma kept_span_lacks: "span_text s = None \<Longrightarrow> kept_span s = Inl (KeyError ''text'')"
  by (simp add: kept_span_def item_def and_then_def)

lemma line_error:
  assumes "line_text_block p l = Inl e"
  shows "\<exists>k. e = KeyError k"
proof (cases "line_spans l")
  case None
  with assms show ?thesis by (auto simp: line_text_block_def item_def and_then_def)
next
  case (Some spans)
  show ?thesis
  proof (cases "each kept_span spans")
    case (Inl e')
    with Some assms have "e = e'" by (simp add: line_text_block_def item_def and_then_def)
    with each_error[OF Inl] kept_span_error show ?thesis by blast
  next
    case (Inr kept)
    with Some assms show ?thesis
      by (auto simp: line_text_block_def item_def and_then_def Let_def
          split: if_splits list.splits option.splits)
  qed
qed

lemma page_error:
  assumes "page_text_blocks p blocks = Inl e"
  shows "\<exists>k. e = KeyError k"
proof -
  from each_error[OF assms[unfolded page_text_blocks_def]]
  obtain ls where "each (line_text_block p) ls = Inl e" by (auto split: option.splits)
  from each_error[OF this] line_error show ?thesis by blast
qed

lemma blocks_error:
  assumes "extract_text_blocks doc = Inl e"
  shows "\<exists>k. e = KeyError k"
  using each_error[OF assms[unfolded extract_text_blocks_def]] page_error by blast

lemma line_lacks: "line_lacks_text l \<Longrightarrow> \<exists>e. line_text_block p l = Inl e"
proof -
  assume "line_lacks_text l"
  then obtain spans s where l: "line_spans l = Some spans" and s: "s \<in> set spans" "span_text s = None"
    by (auto simp: line_lacks_text_def list_ex_iff split: option.splits)
  from each_raises[where f = kept_span, OF s(1) kept_span_lacks[OF s(2)]]
  obtain e where "each kept_span spans = Inl e" by blast
  with l show ?thesis by (simp add: line_text_block_def item_def and_then_def)
qed

lemma page_lacks:
  assumes "list_ex block_lacks_text blocks"
  shows "\<exists>e. page_text_blocks p blocks = Inl e"
proof -
  from assms obtain b ls l where b: "b \<in> set blocks" "block_lines b = Some ls"
      and l: "l \<in> set ls" "line_lacks_text l"
    by (auto simp: block_lacks_text_def list_ex_iff split: option.splits)
  from line_lacks[OF l(2)] obtain e where "line_text_block p l = Inl e" by blast
  from each_raises[where f = "line_text_block p", OF l(1) this] obtain e' where "each (line_text_block p) ls = Inl e'" by blast
  with b(2) have "(case block_lines b of None \<Rightarrow> Inr [] | Some ls \<Rightarrow> each (line_text_block p) ls) = Inl e'"
    by simp
  from each_raises[where f = "\<lambda>block. case block_lines block of None \<Rightarrow> Inr [] | Some ls \<Rightarrow> each (line_text_block p) ls", OF b(1) this]
  show ?thesis by (simp add: page_text_blocks_def)
qed

lemma blocks_lacks:
  assumes "lacks_text doc"
  shows "\<exists>k. extract_text_blocks doc = Inl (KeyError k)"
proof -
  from assms obtain pg where "pg \<in> set doc" "list_ex block_lacks_text pg"
    by (auto simp: lacks_text_def list_ex_iff)
  then obtain i where i: "i < length doc" "list_ex block_lacks_text (doc ! i)"
    by (auto simp: in_set_conv_nth)
  from page_lacks[OF i(2)] obtain e where e: "page_text_blocks i (doc ! i) = Inl e" by blast
  have "i \<in> set [0..<length doc]" using i(1) by simp
  from each_raises[where f = "\<lambda>page_num. page_text_blocks page_num (doc ! page_num)", OF this e]
  obtain e' where "extract_text_blocks doc = Inl e'" by (auto simp: extract_text_blocks_def)
  with blocks_error show ?thesis by blast
qed

text \<open>\<open>analyze_fonts\<close> does not raise on a list of blocks that is not empty.\<close>

lemma count_up_not_Nil: "count_up x c \<noteq> []"
  by (cases c) (auto split: if_splits)

lemma fold_count_up_not_Nil: "c \<noteq> [] \<Longrightarrow> fold count_up xs c \<noteq> []"
  by (induction xs arbitrary: c) (auto simp: count_up_not_Nil)

lemma Counter_not_Nil: "xs \<noteq> [] \<Longrightarrow> Counter xs \<noteq> []"
  by (cases xs) (auto simp: Counter_def count_up_not_Nil fold_count_up_not_Nil simp del: count_up.simps)

lemma analyze_fonts_total: "text_blocks \<noteq> [] \<Longrightarrow> \<exists>fa. analyze_fonts text_blocks = Inr fa"
proof -
  assume ne: "text_blocks \<noteq> []"
  have 1: "most_common1 (Counter (map font_size text_blocks)) \<noteq> []"
    using Counter_not_Nil[of "map font_size text_blocks"] ne
    by (auto simp: most_common1_def split: list.splits)
  have 2: "most_common1 (Counter (map font_name text_blocks)) \<noteq> []"
    using Counter_not_Nil[of "map font_name text_blocks"] ne
    by (auto simp: most_common1_def split: list.splits)
  from 1 2 show ?thesis
    by (auto simp: analyze_fonts_def Let_def split: list.splits prod.splits)
qed

text \<open>
  The scorer raises for a division by zero only. With a body font size of zero no block
  is accepted, and the loop over the blocks raises at the first block that reaches the
  division.
\<close>

lemma score_error: "calculate_heading_likelihood al b fa = Inl e \<Longrightarrow> e = ZeroDivisionError \<and> body_font_size fa = 0"
  by (auto simp: calculate_heading_likelihood_def Let_def split: if_splits)

lemma collect_error:
  "collect_headings al fa bs hs seen = Inl e \<Longrightarrow> e = ZeroDivisionError \<and> body_font_size fa = 0"
proof (induction bs arbitrary: hs seen)
  case Nil
  then show ?case by simp
next
  case (Cons b bs)
  show ?case
  proof (cases "strip (btext b) = [] \<or> (lower (strip (btext b)), page b) \<in> seen")
    case True
    with Cons.prems have "collect_headings al fa bs hs seen = Inl e" by (auto simp: Let_def)
    then show ?thesis by (rule Cons.IH)
  next
    case False
    show ?thesis
    proof (cases "calculate_heading_likelihood al b fa")
      case (Inl e')
      with False Cons.prems have "e' = e" by (simp add: Let_def)
      with Inl show ?thesis by (simp add: score_error)
    next
      case (Inr res)
      obtain ok lvl c where res: "res = (ok, lvl, c)" by (cases res) auto
      from False Inr res Cons.prems
      have "\<exists>hs' seen'. collect_headings al fa bs hs' seen' = Inl e"
        by (cases ok) (auto simp: Let_def)
      then show ?thesis using Cons.IH by blast
    qed
  qed
qed

lemma collect_zero:
  assumes "body_font_size fa = 0"
  shows "collect_headings al fa bs [] {} =
           (if list_ex scored bs then Inl ZeroDivisionError else Inr [])"
  using assms
  by (induction bs) (auto simp: scored_def calculate_heading_likelihood_def Let_def)

lemma outline_error_iff:
  "extract_outline doc = Inl e \<longleftrightarrow>
     extract_text_blocks doc = Inl e \<and> (\<exists>k. e = KeyError k) \<or>
     e = ZeroDivisionError \<and>
       (\<exists>bs fa. extract_text_blocks doc = Inr bs \<and> analyze_fonts bs = Inr fa \<and>
          body_font_size fa = 0 \<and> list_ex scored bs)"
proof (cases "extract_text_blocks doc")
  case (Inl e')
  with blocks_error[OF Inl] show ?thesis by (auto simp: extract_outline_def)
next
  case (Inr bs)
  show ?thesis
  proof (cases "bs = []")
    case True
    with Inr show ?thesis by (simp add: extract_outline_def)
  next
    case False
    from analyze_fonts_total[OF False] obtain fa where fa: "analyze_fonts bs = Inr fa" by blast
    have out: "extract_outline doc = Inl e \<longleftrightarrow> collect_headings bs fa bs [] {} = Inl e"
      using Inr False fa by (auto simp: extract_outline_def Let_def split: sum.splits)
    show ?thesis
    proof (cases "body_font_size fa = 0")
      case True
      from collect_zero[OF True] out Inr fa True show ?thesis by auto
    next
      case False
      with collect_error[of bs fa bs "[]" "{}" e] out Inr fa show ?thesis by auto
    qed
  qed
qed

text \<open>
  Claim C4. \<open>extract_pdf_outline\<close> returns the dictionary with the title \<open>Error\<close> and no
  entries exactly when the extraction of the outline raises, and also when the document
  cannot be opened: no exception leaves it. The extraction raises in two ways only. Reading
  the lines raises \<open>KeyError\<close>, for a line or a span without a key that the source reads;
  it does so for every document in which some span lacks the key \<open>text\<close>. Scoring raises
  \<open>ZeroDivisionError\<close>, exactly when the body font size is zero and some block reaches
  the division.
\<close>

theorem errors_become_sentinel:
  "(extract_pdf_outline (Opened doc) = error_result \<longleftrightarrow> (\<exists>e. extract_outline doc = Inl e)) \<and>
   (extract_outline doc = Inl e \<longleftrightarrow>
      extract_text_blocks doc = Inl e \<and> (\<exists>k. e = KeyError k) \<or>
      e = ZeroDivisionError \<and>
        (\<exists>bs fa. extract_text_blocks doc = Inr bs \<and> analyze_fonts bs = Inr fa \<and>
           body_font_size fa = 0 \<and> list_ex scored bs)) \<and>
   (lacks_text doc \<longrightarrow> (\<exists>k. extract_text_blocks doc = Inl (KeyError k))) \<and>
   extract_pdf_outline OpenFailed = error_result"
proof -
  have "extract_pdf_outline (Opened doc) = error_result \<longleftrightarrow> (\<exists>e. extract_outline doc = Inl e)"
  proof (cases "extract_outline doc")
    case (Inl e')
    then show ?thesis by (simp add: extract_pdf_outline_def error_result_def)
  next
    case (Inr r)
    then have "metadata r = Some (length doc)"
      by (auto simp: extract_outline_def Let_def split: sum.splits if_splits)
    then have "r \<noteq> error_result" by (auto simp: error_result_def)
    with Inr show ?thesis by (simp add: extract_pdf_outline_def)
  qed
  moreover have "extract_pdf_outline OpenFailed = error_result"
    by (simp add: extract_pdf_outline_def error_result_def)
  ultimately show ?thesis using outline_error_iff blocks_lacks by blast
qed

lemma zero_text_blocks:
  "extract_text_blocks zero_doc = Inr [line_block 1 ''Hidden text'' 0 False ''Times'' 72 100]"
  by (simp add: blocks_defs zero_doc_def)

lemma zero_analysis:
  "\<exists>fa. analyze_fonts [line_block 1 ''Hidden text'' 0 False ''Times'' 72 100] = Inr fa \<and>
     body_font_size fa = 0"
  by (simp add: analyze_fonts_def line_block_def Counter_def most_common1_def)

lemma hidden_excluded: "is_excluded_content ''Hidden text'' p = False" by (simp add: ev)

lemma hidden_strip: "strip ''Hidden text'' = ''Hidden text''" by (simp add: ev)

lemma zero_outline: "extract_outline zero_doc = Inl ZeroDivisionError"
proof -
  obtain fa where fa: "analyze_fonts [line_block 1 ''Hidden text'' 0 False ''Times'' 72 100] = Inr fa"
    and z: "body_font_size fa = 0"
    using zero_analysis by blast
  have "calculate_heading_likelihood al (line_block 1 ''Hidden text'' 0 False ''Times'' 72 100) fa
          = Inl ZeroDivisionError" for al
    by (simp add: calculate_heading_likelihood_def line_block_sel hidden_excluded z)
  then show ?thesis
    by (simp add: extract_outline_def zero_text_blocks fa line_block_sel hidden_strip Let_def
        del: One_nat_def)
qed

lemma broken_text_blocks: "extract_text_blocks broken_doc = Inl (KeyError ''size'')"
  by (simp add: blocks_defs broken_doc_def)

lemma textless_text_blocks: "extract_text_blocks textless_doc = Inl (KeyError ''text'')"
  by (simp add: blocks_defs textless_doc_def)

lemma textless_lacks: "lacks_text textless_doc"
  by (simp add: lacks_text_def block_lacks_text_def line_lacks_text_def textless_doc_def text_line_def)

theorem errors_become_sentinel_witness:
  "extract_outline zero_doc = Inl ZeroDivisionError \<and>
   extract_pdf_outline (Opened zero_doc) = error_result \<and>
   extract_outline broken_doc = Inl (KeyError ''size'') \<and>
   extract_pdf_outline (Opened broken_doc) = error_result \<and>
   lacks_text textless_doc \<and>
   extract_outline textless_doc = Inl (KeyError ''text'') \<and>
   extract_pdf_outline (Opened textless_doc) = error_result"
  using errors_become_sentinel[of zero_doc ZeroDivisionError]
    errors_become_sentinel[of broken_doc "KeyError ''size''"]
    errors_become_sentinel[of textless_doc "KeyError ''text''"]
    zero_outline broken_text_blocks textless_text_blocks textless_lacks
  by simp

end
